theory Spec2Isabelle
  imports Main
begin

section \<open>The indexer service's start command\<close>

text \<open>
  The development embeds \<^verbatim>\<open>packages/indexer-service/src/commands/start.ts\<close>: the
  option table of the command (\<open>builder\<close>), the startup sequence (\<open>handler\<close>), the
  payment handler it registers on the state-channel client (\<open>on_unlocked\<close>), the timer
  callback that sends a payment back (\<open>echo_send\<close>, \<open>echo_settle\<close>) and the status route.
  The libraries the file calls (the database connector, the state-channel client, the
  formatter of amounts) are not part of the file: their answers are the fields of an
  environment \<open>env\<close>, and every call the program makes is written to a trace.
\<close>

subsection \<open>Values exchanged with the libraries\<close>

datatype error = Error (message: string)

type_synonym address = string

text \<open>\<^verbatim>\<open>AddressZero\<close> of ethers: the asset identifier of the native asset.\<close>

definition AddressZero :: address where
  "AddressZero = ''0x0000000000000000000000000000000000000000''"

definition CONDITIONAL_TRANSFER_UNLOCKED_EVENT :: string where
  "CONDITIONAL_TRANSFER_UNLOCKED_EVENT = ''CONDITIONAL_TRANSFER_UNLOCKED_EVENT''"

text \<open>A command-line value: yargs delivers strings and numbers.\<close>

datatype arg = Str string | Num int

subsection \<open>The option table (lines 14 to 59)\<close>

datatype opt_type = TString | TNumber

record opt_spec =
  description :: string
  kind :: opt_type
  default_value :: "arg option"

record yargs =
  options :: "(string \<times> opt_spec) list"
  demanded :: "string list"

definition option :: "string \<Rightarrow> opt_spec \<Rightarrow> yargs \<Rightarrow> yargs" where
  "option key spec y = y\<lparr>options := options y @ [(key, spec)]\<rparr>"

definition demandOption :: "string list \<Rightarrow> yargs \<Rightarrow> yargs" where
  "demandOption keys y = y\<lparr>demanded := demanded y @ keys\<rparr>"

text \<open>Method chaining: \<open>y.f().g()\<close> is \<open>chained y [f, g]\<close>.\<close>

definition chained :: "'a \<Rightarrow> ('a \<Rightarrow> 'a) list \<Rightarrow> 'a" where
  "chained y fs = foldl (\<lambda>acc f. f acc) y fs"

definition builder :: "yargs \<Rightarrow> yargs" where
  "builder y = chained y
     [option ''mnemonic''
        \<lparr>description = ''Ethereum wallet mnemonic'', kind = TString, default_value = None\<rparr>,
      option ''ethereum''
        \<lparr>description = ''Ethereum node or provider URL'', kind = TString, default_value = None\<rparr>,
      option ''connext-messaging''
        \<lparr>description = ''Connext messaging URL'', kind = TString, default_value = None\<rparr>,
      option ''connext-node''
        \<lparr>description = ''Connext node URL'', kind = TString, default_value = None\<rparr>,
      option ''postgres-host''
        \<lparr>description = ''Postgres host'', kind = TString, default_value = None\<rparr>,
      option ''postgres-port''
        \<lparr>description = ''Postgres port'', kind = TNumber, default_value = Some (Num 5432)\<rparr>,
      option ''postgres-username''
        \<lparr>description = ''Postgres username'', kind = TString, default_value = None\<rparr>,
      option ''postgres-password''
        \<lparr>description = ''Postres password'', kind = TString, default_value = None\<rparr>,
      option ''postgres-database''
        \<lparr>description = ''Postgres database name'', kind = TString, default_value = None\<rparr>,
      option ''port''
        \<lparr>description = ''Port to serve from'', kind = TNumber, default_value = Some (Num 7600)\<rparr>,
      demandOption [''mnemonic'', ''ethereum'', ''connext-node'', ''postgres-database'']]"

text \<open>
  The parsed arguments, as the handler reads them: yargs stores the option
  \<^verbatim>\<open>postgres-host\<close> under the key \<^verbatim>\<open>postgresHost\<close>, and a key that was
  neither given nor has a default is \<^verbatim>\<open>undefined\<close>, here \<open>None\<close>.
\<close>

record argv =
  mnemonic :: "arg option"
  ethereum :: "arg option"
  connextMessaging :: "arg option"
  connextNode :: "arg option"
  postgresHost :: "arg option"
  postgresPort :: "arg option"
  postgresUsername :: "arg option"
  postgresPassword :: "arg option"
  postgresDatabase :: "arg option"
  port :: "arg option"

text \<open>
  What yargs does with the table (the library is not part of the repository; this is
  its documented behaviour): a given value wins, else the option's default, else
  \<^verbatim>\<open>undefined\<close>; and when a demanded key is not given, parsing fails and the
  command's handler is not called.
\<close>

definition given :: "yargs \<Rightarrow> (string \<times> arg) list \<Rightarrow> string \<Rightarrow> arg option" where
  "given y args key =
     (case map_of args key of
        Some v \<Rightarrow> Some v
      | None \<Rightarrow> (case map_of (options y) key of
                   Some spec \<Rightarrow> default_value spec
                 | None \<Rightarrow> None))"

definition missing :: "yargs \<Rightarrow> (string \<times> arg) list \<Rightarrow> string list" where
  "missing y args = filter (\<lambda>key. map_of args key = None) (demanded y)"

definition parse :: "yargs \<Rightarrow> (string \<times> arg) list \<Rightarrow> error + argv" where
  "parse y args =
     (if missing y args \<noteq> [] then
        Inl (Error (''Missing required argument: '' @ concat (map (\<lambda>key. key @ '' '') (missing y args))))
      else
        Inr \<lparr>mnemonic = given y args ''mnemonic'',
             ethereum = given y args ''ethereum'',
             connextMessaging = given y args ''connext-messaging'',
             connextNode = given y args ''connext-node'',
             postgresHost = given y args ''postgres-host'',
             postgresPort = given y args ''postgres-port'',
             postgresUsername = given y args ''postgres-username'',
             postgresPassword = given y args ''postgres-password'',
             postgresDatabase = given y args ''postgres-database'',
             port = given y args ''port''\<rparr>)"

subsection \<open>The libraries' interfaces\<close>

record db_config =
  db_logging :: "string option"
  db_host :: "arg option"
  db_port :: "arg option"
  db_username :: "arg option"
  db_password :: "arg option"
  db_database :: "arg option"

datatype sequelize = Sequelize string

record channel_config =
  cc_sequelize :: sequelize
  cc_mnemonic :: "arg option"
  ethereumProvider :: "arg option"
  cc_connextMessaging :: "arg option"
  cc_connextNode :: "arg option"
  logLevel :: int

record client =
  freeBalanceAddress :: address
  publicIdentifier :: string

record meta =
  sender :: address

text \<open>
  \<^verbatim>\<open>EventPayloads.SignedTransferUnlocked\<close>, the fields the handler reads, as the
  type declares them: an amount that is a number and a \<^verbatim>\<open>meta\<close> object.
\<close>

record payload =
  paymentId :: string
  amount :: int
  meta :: meta

text \<open>
  The event as the client delivers it at run time, where nothing enforces the declared
  type. Its amount is a value \<^verbatim>\<open>toBN\<close> converts, which then denotes an integer, or
  one it refuses (\<^verbatim>\<open>undefined\<close>, a string that is no number, a fraction), given with
  the exception \<^verbatim>\<open>toBN\<close> raises on it; its \<^verbatim>\<open>meta\<close> may be missing.
\<close>

datatype bignumberish = Converts int | Refused error

record event =
  ev_paymentId :: string
  ev_amount :: bignumberish
  ev_meta :: "meta option"

text \<open>The event that carries exactly the fields of a well-typed payload.\<close>

definition event_of :: "payload \<Rightarrow> event" where
  "event_of d =
     \<lparr>ev_paymentId = paymentId d, ev_amount = Converts (amount d), ev_meta = Some (meta d)\<rparr>"

record transfer_params =
  tx_amount :: int
  recipient :: address
  assetId :: address

record transfer_response =
  response_paymentId :: string

record response =
  status :: nat
  body :: string

text \<open>
  The answers of the libraries. \<open>formatEther\<close> is the formatter of ethers on a big
  number, and \<open>formatEther_undefined\<close> the exception it raises on \<^verbatim>\<open>undefined\<close>
  (a JavaScript object read at a key it does not have). \<open>property_of_undefined\<close> is
  the \<^verbatim>\<open>TypeError\<close> the runtime raises when a property of \<^verbatim>\<open>undefined\<close> is read.
  \<open>String\<close> is the conversion a template literal applies to a value, and
  \<open>morgan_tiny\<close> the access line of morgan.
\<close>

record env =
  connect :: "db_config \<Rightarrow> error + sequelize"
  createStateChannel :: "channel_config \<Rightarrow> error + client"
  getFreeBalance :: "client \<Rightarrow> address \<Rightarrow> error + (address \<rightharpoonup> int)"
  formatEther :: "int \<Rightarrow> string"
  formatEther_undefined :: error
  property_of_undefined :: error
  String :: "arg option \<Rightarrow> string"
  morgan_tiny :: "string \<Rightarrow> string \<Rightarrow> response \<Rightarrow> string"

text \<open>
  \<^verbatim>\<open>toBN\<close> of the Connext types turns a value it converts into a big number of the
  same value (big numbers are unbounded integers), and raises on any other value.
\<close>

definition toBN :: "bignumberish \<Rightarrow> error + int" where
  "toBN v = (case v of Converts n \<Rightarrow> Inr n | Refused err \<Rightarrow> Inl err)"

subsection \<open>The process: clock, trace, timers and pending calls\<close>

datatype level = Info | Debug | Err

datatype origin = Startup | Echo nat | Server | Emitter

datatype action =
    Log level string
  | ServerLog level string
  | DbConnect db_config
  | CreateStateChannel channel_config
  | GetFreeBalance address
  | On string
  | Emitted payload
  | Raised error
  | SetTimeout nat
  | TimerFired
  | Transfer transfer_params
  | Settled "error + transfer_response"
  | Use_morgan
  | Route string string
  | Listen "arg option"
  | Request string string
  | Respond response
  | Fallthrough

text \<open>
  The variables the timer callback closes over: \<open>amount\<close>, \<open>formattedAmount\<close> and
  \<open>data\<close>, of which the handler has read the fields before it made the closure.
  \<open>owner\<close> numbers the call of the payment handler that created the closure.
\<close>

record echo_closure =
  owner :: nat
  c_amount :: int
  c_formattedAmount :: string
  c_data :: payload

record timer =
  due :: nat
  callback :: echo_closure

record express =
  morgan :: bool
  routes :: "(string \<times> string) list"

text \<open>
  The express application: whether morgan is installed, and the method and path of the
  routes that lead to the status handler. The server is absent, or \<^verbatim>\<open>listen\<close> has
  been called but the socket is not bound yet, or it is listening.
\<close>

datatype server_state = NoServer | Starting express "arg option" | Listening express "arg option"

text \<open>
  The process. \<open>trace\<close> records every call, with the clock at that moment and the piece
  of code that made it; \<open>failed\<close> is the error the handler rejected with; \<open>subscribed\<close>
  says that the payment handler is registered on the client; \<open>delivered\<close> counts the
  calls of the payment handler that could read their event (the action \<open>Emitted\<close> marks
  such a call, with the fields it read; a call that raised leaves \<open>Raised\<close>, written for
  the client's emitter, to which the exception goes); \<open>timers\<close> are the pending timers by identifier, and
  \<open>awaiting\<close> the timer callbacks suspended in \<^verbatim>\<open>await client.transfer\<close>, by the
  identifier of their timer. The clock moves only between callbacks (the stimulus
  \<open>Advance\<close>); startup is stamped with the clock it began at. The calls into the logger
  and the web framework are taken to return.
\<close>

record proc =
  now :: nat
  trace :: "(nat \<times> origin \<times> action) list"
  failed :: "error option"
  subscribed :: bool
  server :: server_state
  delivered :: nat
  next_timer :: nat
  timers :: "nat \<rightharpoonup> timer"
  awaiting :: "nat \<rightharpoonup> echo_closure"

definition boot :: proc where
  "boot = \<lparr>now = 0, trace = [], failed = None, subscribed = False, server = NoServer,
           delivered = 0, next_timer = 0, timers = Map.empty, awaiting = Map.empty\<rparr>"

definition act :: "origin \<Rightarrow> action \<Rightarrow> proc \<Rightarrow> proc" where
  "act who a s = s\<lparr>trace := trace s @ [(now s, who, a)]\<rparr>"

text \<open>A rejected promise that nothing catches: the async function stops there.\<close>

definition reject :: "error \<Rightarrow> proc \<Rightarrow> proc" where
  "reject e s = s\<lparr>failed := Some e\<rparr>"

text \<open>\<^verbatim>\<open>setTimeout(cb, delay)\<close>: a new timer, due \<open>delay\<close> after the present.\<close>

definition setTimeout :: "echo_closure \<Rightarrow> nat \<Rightarrow> proc \<Rightarrow> proc" where
  "setTimeout cb delay s =
     (act (Echo (owner cb)) (SetTimeout delay) s)
       \<lparr>next_timer := Suc (next_timer s),
        timers := (timers s)(next_timer s \<mapsto> \<lparr>due = now s + delay, callback = cb\<rparr>)\<rparr>"

text \<open>
  \<^verbatim>\<open>await client.transfer(params)\<close> in the callback of timer \<open>tid\<close>: the call is
  made and the callback is suspended until the client settles it.
\<close>

definition transfer :: "nat \<Rightarrow> echo_closure \<Rightarrow> transfer_params \<Rightarrow> proc \<Rightarrow> proc" where
  "transfer tid c params s =
     (act (Echo (owner c)) (Transfer params) s)\<lparr>awaiting := (awaiting s)(tid \<mapsto> c)\<rparr>"

subsection \<open>The payment handler and the timer callback (lines 102 to 130)\<close>

text \<open>An exception that leaves the payment handler: it goes to the client's emitter.\<close>

definition raised :: "error \<Rightarrow> proc \<Rightarrow> proc" where
  "raised err s = act Emitter (Raised err) s"

text \<open>
  The handler registered on the client's unlock event, called with the event \<open>data\<close>.
  It converts \<^verbatim>\<open>data.amount\<close> (line 105) and formats it (line 106), reads
  \<^verbatim>\<open>data.paymentId\<close> and \<^verbatim>\<open>data.meta.sender\<close> for its log line (line 109), logs
  the payment and schedules the callback 1000 later (line 112). Nothing of this is
  inside a \<^verbatim>\<open>try\<close>: when \<^verbatim>\<open>toBN\<close> raises, or \<^verbatim>\<open>data.meta\<close> is missing,
  the exception leaves the handler before anything is logged or scheduled.
\<close>

definition on_unlocked :: "env \<Rightarrow> event \<Rightarrow> proc \<Rightarrow> proc" where
  "on_unlocked e data s0 =
     (case toBN (ev_amount data) of
        Inl err \<Rightarrow> raised err s0
      | Inr amt \<Rightarrow>
     (let formattedAmount = formatEther e amt
      in case ev_meta data of
           None \<Rightarrow> raised (property_of_undefined e) s0
         | Some m \<Rightarrow>
     (let k = delivered s0;
          d = \<lparr>paymentId = ev_paymentId data, amount = amt, meta = m\<rparr>;
          s1 = act (Echo k) (Emitted d) (s0\<lparr>delivered := Suc k\<rparr>);
          s2 = act (Echo k) (Log Info (''Received payment '' @ ev_paymentId data @ '' ('' @
                 formattedAmount @ '' ETH) from '' @ sender m)) s1
      in setTimeout \<lparr>owner = k, c_amount = amt, c_formattedAmount = formattedAmount, c_data = d\<rparr>
           1000 s2)))"

text \<open>The timer callback up to its \<^verbatim>\<open>await\<close> (lines 112 to 119).\<close>

definition echo_send :: "nat \<Rightarrow> echo_closure \<Rightarrow> proc \<Rightarrow> proc" where
  "echo_send tid c s =
     (let s1 = act (Echo (owner c)) (Log Info (''Send '' @ c_formattedAmount c @
                 '' ETH back to '' @ sender (meta (c_data c)))) s
      in transfer tid c
           \<lparr>tx_amount = c_amount c, recipient = sender (meta (c_data c)), assetId = AddressZero\<rparr>
           s1)"

text \<open>
  The rest of the callback, once the client has settled the call (lines 120 to 127):
  the \<^verbatim>\<open>try\<close> block goes on when the promise resolved, the \<^verbatim>\<open>catch\<close> block
  takes a rejection. Both end the callback.
\<close>

definition echo_settle :: "echo_closure \<Rightarrow> error + transfer_response \<Rightarrow> proc \<Rightarrow> proc" where
  "echo_settle c result s =
     (case result of
        Inr resp \<Rightarrow>
          act (Echo (owner c)) (Log Info (c_formattedAmount c @ '' ETH sent back to '' @
            sender (meta (c_data c)) @ '' via payment '' @ response_paymentId resp)) s
      | Inl e \<Rightarrow>
          act (Echo (owner c)) (Log Err (''Failed to send payment back to '' @
            sender (meta (c_data c)) @ '': '' @ message e)) s)"

subsection \<open>The status route (lines 144 to 146)\<close>

definition root_handler :: response where
  "root_handler = \<lparr>status = 200, body = ''Ready to roll!''\<rparr>"

subsection \<open>Startup (lines 60 to 149)\<close>

text \<open>The object literals passed to the two constructors (lines 66 to 73, 77 to 84).\<close>

definition database_options :: "argv \<Rightarrow> db_config" where
  "database_options argv =
     \<lparr>db_logging = None, db_host = postgresHost argv, db_port = postgresPort argv,
      db_username = postgresUsername argv, db_password = postgresPassword argv,
      db_database = postgresDatabase argv\<rparr>"

definition channel_options :: "argv \<Rightarrow> sequelize \<Rightarrow> channel_config" where
  "channel_options argv sequelize =
     \<lparr>cc_sequelize = sequelize, cc_mnemonic = mnemonic argv, ethereumProvider = ethereum argv,
      cc_connextMessaging = connextMessaging argv, cc_connextNode = connextNode argv,
      logLevel = 1\<rparr>"

text \<open>
  The async handler. Each \<^verbatim>\<open>await\<close> either yields the library's value or rejects,
  and a rejection ends the handler: nothing catches it.
\<close>

definition handler :: "env \<Rightarrow> argv \<Rightarrow> proc \<Rightarrow> proc" where
  "handler e argv s0 =
     (let s1 = act Startup (Log Info ''Starting up'') s0;
          s2 = act Startup (Log Info ''Connect to database'') s1;
          s3 = act Startup (DbConnect (database_options argv)) s2
      in case connect e (database_options argv) of
           Inl err \<Rightarrow> reject err s3
         | Inr sequelize \<Rightarrow>
     (let s4 = act Startup (Log Info ''Connected to database'') s3;
          s5 = act Startup (Log Info ''Create state channel'') s4;
          s6 = act Startup (CreateStateChannel (channel_options argv sequelize)) s5
      in case createStateChannel e (channel_options argv sequelize) of
           Inl err \<Rightarrow> reject err s6
         | Inr client \<Rightarrow>
     (let s7 = act Startup (Log Info ''Created state channel'') s6;
          s8 = act Startup (GetFreeBalance AddressZero) s7
      in case getFreeBalance e client AddressZero of
           Inl err \<Rightarrow> reject err s8
         | Inr freeBalance \<Rightarrow>
     (case freeBalance (freeBalanceAddress client) of
           None \<Rightarrow> reject (formatEther_undefined e) s8
         | Some balance \<Rightarrow>
     (let s9 = act Startup (Log Info (''Channel free balance: '' @ formatEther e balance)) s8;
          s10 = act Startup (Log Info (''Signer address: '' @ freeBalanceAddress client)) s9;
          s11 = act Startup (Log Info (''Free balance address: '' @ freeBalanceAddress client)) s10;
          s12 = act Startup (Log Info (''xpub: '' @ publicIdentifier client)) s11;
          s13 = (act Startup (On CONDITIONAL_TRANSFER_UNLOCKED_EVENT) s12)\<lparr>subscribed := True\<rparr>;
          s14 = act Startup (Log Info ''Waiting to receive payments...'') s13;
          s15 = act Server (ServerLog Info (''Start at port '' @ String e (port argv))) s14;
          s16 = act Server Use_morgan s15;
          s17 = act Server (Route ''GET'' ''/'') s16
      in (act Server (Listen (port argv)) s17)
           \<lparr>server := Starting \<lparr>morgan = True, routes = [(''GET'', ''/'')]\<rparr> (port argv)\<rparr>)))))"

text \<open>The command: yargs parses the arguments and calls the handler.\<close>

definition main :: "env \<Rightarrow> (string \<times> arg) list \<Rightarrow> proc" where
  "main e args =
     (case parse (builder \<lparr>options = [], demanded = []\<rparr>) args of
        Inl err \<Rightarrow> reject err boot
      | Inr argv \<Rightarrow> handler e argv boot)"

subsection \<open>The event loop\<close>

text \<open>
  What the runtime and the outside world do to the running process: the client emits
  an unlock event, time passes, a timer that is due fires, the client settles a pending
  transfer, the server socket is bound (the callback of \<^verbatim>\<open>listen\<close>), a request
  arrives. Node promises no order between timers that are due.
\<close>

datatype stimulus =
    Deliver event
  | Advance nat
  | Fire nat
  | Settle nat "error + transfer_response"
  | Bound
  | Http string string

text \<open>
  A request to the listening server: the registered route answers with the status
  handler and morgan logs the line; any other request falls through to the framework's
  own handling, which is not modelled.
\<close>

definition dispatch :: "env \<Rightarrow> express \<Rightarrow> string \<Rightarrow> string \<Rightarrow> proc \<Rightarrow> proc" where
  "dispatch e app m p s =
     (let s1 = act Server (Request m p) s
      in if (m, p) \<in> set (routes app) then
           (let s2 = act Server (Respond root_handler) s1
            in if morgan app then act Server (ServerLog Debug (morgan_tiny e m p root_handler)) s2
               else s2)
         else act Server Fallthrough s1)"

fun step :: "env \<Rightarrow> proc \<Rightarrow> stimulus \<Rightarrow> proc" where
  "step e s (Deliver d) = (if subscribed s then on_unlocked e d s else s)"
| "step e s (Advance n) = s\<lparr>now := now s + n\<rparr>"
| "step e s (Fire tid) =
     (case timers s tid of
        None \<Rightarrow> s
      | Some t \<Rightarrow>
          if due t \<le> now s then
            echo_send tid (callback t)
              (act (Echo (owner (callback t))) TimerFired (s\<lparr>timers := (timers s)(tid := None)\<rparr>))
          else s)"
| "step e s (Settle tid result) =
     (case awaiting s tid of
        None \<Rightarrow> s
      | Some c \<Rightarrow>
          echo_settle c result
            (act (Echo (owner c)) (Settled result) (s\<lparr>awaiting := (awaiting s)(tid := None)\<rparr>)))"
| "step e s Bound =
     (case server s of
        Starting app p \<Rightarrow>
          act Server (ServerLog Info (''Started at port '' @ String e p)) (s\<lparr>server := Listening app p\<rparr>)
      | _ \<Rightarrow> s)"
| "step e s (Http m p) =
     (case server s of
        Listening app _ \<Rightarrow> dispatch e app m p s
      | _ \<Rightarrow> s)"

definition run :: "env \<Rightarrow> proc \<Rightarrow> stimulus list \<Rightarrow> proc" where
  "run e s ins = foldl (step e) s ins"

subsection \<open>What the libraries answer in the worked examples\<close>

definition demo_client :: client where
  "demo_client = \<lparr>freeBalanceAddress = ''0xF1'', publicIdentifier = ''xpub1''\<rparr>"

text \<open>
  The formatter and the string conversion are given at the values the examples use:
  ethers prints 1000000000000000000 wei as \<^verbatim>\<open>1.0\<close>, 0 as \<^verbatim>\<open>0.0\<close> and -5 as
  \<^verbatim>\<open>-0.000000000000000005\<close>. Of morgan's line only the method and the path are kept.
\<close>

definition demo_env :: env where
  "demo_env =
     \<lparr>connect = (\<lambda>cfg. Inr (Sequelize ''indexer'')),
      createStateChannel = (\<lambda>cfg. Inr demo_client),
      getFreeBalance = (\<lambda>c asset. Inr [''0xF1'' \<mapsto> 0]),
      formatEther = (\<lambda>n. if n = 1000000000000000000 then ''1.0''
                         else if n = 0 then ''0.0''
                         else if n = - 5 then ''-0.000000000000000005''
                         else []),
      formatEther_undefined = Error ''invalid BigNumber value'',
      property_of_undefined = Error ''Cannot read property of undefined'',
      String = (\<lambda>v. case v of
                       Some (Str x) \<Rightarrow> x
                     | Some (Num n) \<Rightarrow> (if n = 7600 then ''7600'' else [])
                     | None \<Rightarrow> ''undefined''),
      morgan_tiny = (\<lambda>m p r. m @ '' '' @ p)\<rparr>"

definition demo_args :: "(string \<times> arg) list" where
  "demo_args =
     [(''mnemonic'', Str ''test test test''), (''ethereum'', Str ''http://localhost:8545''),
      (''connext-node'', Str ''http://localhost:8080''), (''postgres-database'', Str ''indexer'')]"

definition demo_argv :: argv where
  "demo_argv =
     \<lparr>mnemonic = Some (Str ''test test test''), ethereum = Some (Str ''http://localhost:8545''),
      connextMessaging = None, connextNode = Some (Str ''http://localhost:8080''),
      postgresHost = None, postgresPort = Some (Num 5432), postgresUsername = None,
      postgresPassword = None, postgresDatabase = Some (Str ''indexer''),
      port = Some (Num 7600)\<rparr>"

definition payment_a :: payload where
  "payment_a = \<lparr>paymentId = ''0x01'', amount = 1000000000000000000, meta = \<lparr>sender = ''0xAAA''\<rparr>\<rparr>"

definition payment_b :: payload where
  "payment_b = \<lparr>paymentId = ''0x02'', amount = 0, meta = \<lparr>sender = ''0xBBB''\<rparr>\<rparr>"

subsection \<open>The history of one payment\<close>

text \<open>
  The entries of the trace that the \<open>k\<close>-th call of the payment handler and its timer
  callback wrote, with their times.
\<close>

definition history :: "nat \<Rightarrow> (nat \<times> origin \<times> action) list \<Rightarrow> (nat \<times> action) list" where
  "history k tr = map (\<lambda>(t, who, a). (t, a)) (filter (\<lambda>(t, who, a). who = Echo k) tr)"

definition actions :: "proc \<Rightarrow> action list" where
  "actions s = map (\<lambda>(t, who, a). a) (trace s)"

text \<open>The transfers submitted for the \<open>k\<close>-th payment, with their times.\<close>

definition transfers :: "nat \<Rightarrow> proc \<Rightarrow> (nat \<times> transfer_params) list" where
  "transfers k s =
     concat (map (\<lambda>(t, a). case a of Transfer p \<Rightarrow> [(t, p)] | _ \<Rightarrow> []) (history k (trace s)))"

text \<open>
  The history the specification gives a payment \<open>d\<close> received at \<open>t0\<close>: received and
  scheduled; the timer fired at \<open>t1\<close> and the transfer submitted; the transfer settled at
  \<open>t2\<close> with \<open>r\<close> and the outcome logged.
\<close>

definition echo_of :: "payload \<Rightarrow> transfer_params" where
  "echo_of d = \<lparr>tx_amount = amount d, recipient = sender (meta d), assetId = AddressZero\<rparr>"

definition closure_of :: "env \<Rightarrow> nat \<Rightarrow> payload \<Rightarrow> echo_closure" where
  "closure_of e k d =
     \<lparr>owner = k, c_amount = amount d, c_formattedAmount = formatEther e (amount d), c_data = d\<rparr>"

definition received :: "env \<Rightarrow> payload \<Rightarrow> nat \<Rightarrow> (nat \<times> action) list" where
  "received e d t0 =
     [(t0, Emitted d),
      (t0, Log Info (''Received payment '' @ paymentId d @ '' ('' @ formatEther e (amount d) @
             '' ETH) from '' @ sender (meta d))),
      (t0, SetTimeout 1000)]"

definition sent :: "env \<Rightarrow> payload \<Rightarrow> nat \<Rightarrow> (nat \<times> action) list" where
  "sent e d t1 =
     [(t1, TimerFired),
      (t1, Log Info (''Send '' @ formatEther e (amount d) @ '' ETH back to '' @ sender (meta d))),
      (t1, Transfer (echo_of d))]"

definition outcome_line :: "env \<Rightarrow> payload \<Rightarrow> error + transfer_response \<Rightarrow> action" where
  "outcome_line e d r =
     (case r of
        Inr resp \<Rightarrow> Log Info (formatEther e (amount d) @ '' ETH sent back to '' @ sender (meta d) @
                     '' via payment '' @ response_paymentId resp)
      | Inl err \<Rightarrow> Log Err (''Failed to send payment back to '' @ sender (meta d) @ '': '' @
                     message err))"

definition settled :: "env \<Rightarrow> payload \<Rightarrow> nat \<Rightarrow> error + transfer_response \<Rightarrow> (nat \<times> action) list" where
  "settled e d t2 r = [(t2, Settled r), (t2, outcome_line e d r)]"

text \<open>
  The state of the \<open>k\<close>-th payment: its timer is pending, or its transfer is in flight,
  or it is done; and its history is the part of the specified history up to there.
\<close>

definition echo_phase :: "env \<Rightarrow> proc \<Rightarrow> nat \<Rightarrow> bool" where
  "echo_phase e s k \<longleftrightarrow>
     (\<exists>d t0. t0 \<le> now s \<and>
        (timers s k = Some \<lparr>due = t0 + 1000, callback = closure_of e k d\<rparr> \<and> awaiting s k = None \<and>
           history k (trace s) = received e d t0
         \<or> timers s k = None \<and> awaiting s k = Some (closure_of e k d) \<and>
           (\<exists>t1. t0 + 1000 \<le> t1 \<and> t1 \<le> now s \<and>
              history k (trace s) = received e d t0 @ sent e d t1)
         \<or> timers s k = None \<and> awaiting s k = None \<and>
           (\<exists>t1 t2 r. t0 + 1000 \<le> t1 \<and> t1 \<le> t2 \<and> t2 \<le> now s \<and>
              history k (trace s) = received e d t0 @ sent e d t1 @ settled e d t2 r)))"

definition echo_inv :: "env \<Rightarrow> proc \<Rightarrow> bool" where
  "echo_inv e s \<longleftrightarrow>
     next_timer s = delivered s \<and>
     (\<forall>k. if k < delivered s then echo_phase e s k
          else timers s k = None \<and> awaiting s k = None \<and> history k (trace s) = [])"

subsection \<open>Further environments and payments of the worked examples\<close>

text \<open>The balance answer has no entry for the client's own address.\<close>

definition nokey_env :: env where
  "nokey_env = demo_env\<lparr>getFreeBalance := (\<lambda>c asset. Inr Map.empty)\<rparr>"

definition db_down_env :: env where
  "db_down_env = demo_env\<lparr>connect := (\<lambda>cfg. Inl (Error ''connection refused''))\<rparr>"

definition channel_down_env :: env where
  "channel_down_env =
     demo_env\<lparr>createStateChannel := (\<lambda>cfg. Inl (Error ''node unreachable''))\<rparr>"

definition balance_down_env :: env where
  "balance_down_env = demo_env\<lparr>getFreeBalance := (\<lambda>c asset. Inl (Error ''timeout''))\<rparr>"

text \<open>The balance answer has another amount.\<close>

definition rich_env :: env where
  "rich_env =
     demo_env\<lparr>getFreeBalance := (\<lambda>c asset. Inr [''0xF1'' \<mapsto> 1000000000000000000])\<rparr>"

text \<open>
  Two events outside the declared type: one whose amount is a string that is no
  number, and one without \<^verbatim>\<open>meta\<close>.
\<close>

definition event_nan :: event where
  "event_nan =
     \<lparr>ev_paymentId = ''0x04'', ev_amount = Refused (Error ''invalid BigNumber string''),
      ev_meta = Some \<lparr>sender = ''0xDDD''\<rparr>\<rparr>"

definition event_nometa :: event where
  "event_nometa = \<lparr>ev_paymentId = ''0x05'', ev_amount = Converts 7, ev_meta = None\<rparr>"

definition payment_c :: payload where
  "payment_c = \<lparr>paymentId = ''0x03'', amount = - 5, meta = \<lparr>sender = ''0xCCC''\<rparr>\<rparr>"

subsection \<open>Invariants of the running process\<close>

text \<open>Transfers are only written by timer callbacks.\<close>

definition only_echo_transfers :: "proc \<Rightarrow> bool" where
  "only_echo_transfers s \<longleftrightarrow>
     (\<forall>t who p. (t, who, Transfer p) \<in> set (trace s) \<longrightarrow> (\<exists>k. who = Echo k))"

text \<open>
  A process that is subscribed did not fail, and payments are delivered and a server
  exists only in a subscribed process.
\<close>

definition alive :: "proc \<Rightarrow> bool" where
  "alive s \<longleftrightarrow>
     (subscribed s \<longrightarrow> failed s = None) \<and>
     (0 < delivered s \<or> server s \<noteq> NoServer \<longrightarrow> subscribed s)"

text \<open>The only application the process ever serves is the one startup builds.\<close>

definition app_ok :: "proc \<Rightarrow> bool" where
  "app_ok s \<longleftrightarrow>
     (case server s of
        NoServer \<Rightarrow> True
      | Starting app p \<Rightarrow> app = \<lparr>morgan = True, routes = [(''GET'', ''/'')]\<rparr>
      | Listening app p \<Rightarrow> app = \<lparr>morgan = True, routes = [(''GET'', ''/'')]\<rparr>)"

text \<open>
  Actions of the status server, and a list of actions in which none of them occurs
  until the payment handler has been registered.
\<close>

fun serves :: "action \<Rightarrow> bool" where
  "serves (Listen p) = True"
| "serves (Request m p) = True"
| "serves (Respond r) = True"
| "serves _ = False"

fun guarded :: "action list \<Rightarrow> bool" where
  "guarded [] = True"
| "guarded (a # as) =
     (a = On CONDITIONAL_TRANSFER_UNLOCKED_EVENT \<or> (\<not> serves a \<and> guarded as))"

definition served_after_subscription :: "proc \<Rightarrow> bool" where
  "served_after_subscription s \<longleftrightarrow>
     guarded (actions s) \<and>
     (server s \<noteq> NoServer \<longrightarrow>
        subscribed s \<and> On CONDITIONAL_TRANSFER_UNLOCKED_EVENT \<in> set (actions s))"

text \<open>A process whose startup failed: nothing is registered, so nothing ever runs.\<close>

definition idle :: "proc \<Rightarrow> bool" where
  "idle s \<longleftrightarrow>
     \<not> subscribed s \<and> server s = NoServer \<and> timers s = Map.empty \<and> awaiting s = Map.empty"

fun is_balance_query :: "action \<Rightarrow> bool" where
  "is_balance_query (GetFreeBalance asset) = True"
| "is_balance_query _ = False"

section \<open>Evaluating the worked examples\<close>

lemmas eval_defs = main_def parse_def missing_def given_def builder_def chained_def option_def
  demandOption_def handler_def database_options_def channel_options_def Let_def act_def reject_def
  boot_def demo_env_def demo_args_def demo_argv_def demo_client_def run_def on_unlocked_def
  setTimeout_def echo_send_def transfer_def echo_settle_def dispatch_def toBN_def
  root_handler_def payment_a_def payment_b_def history_def transfers_def actions_def
  event_of_def raised_def

lemma demo_parse: "parse (builder \<lparr>options = [], demanded = []\<rparr>) demo_args = Inr demo_argv"
  by (simp add: parse_def missing_def given_def builder_def chained_def option_def
        demandOption_def demo_args_def demo_argv_def)

section \<open>The option table\<close>

lemma missing_builder:
  "missing (builder \<lparr>options = [], demanded = []\<rparr>) args =
     filter (\<lambda>key. map_of args key = None)
       [''mnemonic'', ''ethereum'', ''connext-node'', ''postgres-database'']"
  by (simp add: missing_def builder_def chained_def option_def demandOption_def)

lemma given_builder_port:
  "given (builder \<lparr>options = [], demanded = []\<rparr>) args ''port'' =
     (case map_of args ''port'' of Some v \<Rightarrow> Some v | None \<Rightarrow> Some (Num 7600))"
  by (simp add: given_def builder_def chained_def option_def demandOption_def split: option.splits)

lemma given_builder_postgres_port:
  "given (builder \<lparr>options = [], demanded = []\<rparr>) args ''postgres-port'' =
     (case map_of args ''postgres-port'' of Some v \<Rightarrow> Some v | None \<Rightarrow> Some (Num 5432))"
  by (simp add: given_def builder_def chained_def option_def demandOption_def split: option.splits)

text \<open>
  C7. The command demands exactly \<^verbatim>\<open>mnemonic\<close>, \<^verbatim>\<open>ethereum\<close>,
  \<^verbatim>\<open>connext-node\<close> and \<^verbatim>\<open>postgres-database\<close>: parsing fails exactly when one
  of the four is not given, and then the handler is not run, so that nothing is connected
  (the trace is empty). The other six options are optional; the only defaults are 5432
  for \<^verbatim>\<open>postgres-port\<close> and 7600 for \<^verbatim>\<open>port\<close>, and the handler gets them when
  the option is not given.
\<close>

theorem builder_required_and_defaults:
  "demanded (builder \<lparr>options = [], demanded = []\<rparr>) =
     [''mnemonic'', ''ethereum'', ''connext-node'', ''postgres-database'']
   \<and> map (\<lambda>(key, spec). (key, default_value spec)) (options (builder \<lparr>options = [], demanded = []\<rparr>)) =
     [(''mnemonic'', None), (''ethereum'', None), (''connext-messaging'', None),
      (''connext-node'', None), (''postgres-host'', None), (''postgres-port'', Some (Num 5432)),
      (''postgres-username'', None), (''postgres-password'', None),
      (''postgres-database'', None), (''port'', Some (Num 7600))]
   \<and> ((\<exists>err. parse (builder \<lparr>options = [], demanded = []\<rparr>) args = Inl err) \<longleftrightarrow>
        (\<exists>key \<in> {''mnemonic'', ''ethereum'', ''connext-node'', ''postgres-database''}.
           map_of args key = None))
   \<and> (\<forall>err. parse (builder \<lparr>options = [], demanded = []\<rparr>) args = Inl err \<longrightarrow>
        trace (main e args) = [] \<and> failed (main e args) = Some err)
   \<and> (\<forall>a. parse (builder \<lparr>options = [], demanded = []\<rparr>) args = Inr a \<longrightarrow>
        main e args = handler e a boot
        \<and> postgresPort a =
            (case map_of args ''postgres-port'' of Some v \<Rightarrow> Some v | None \<Rightarrow> Some (Num 5432))
        \<and> port a = (case map_of args ''port'' of Some v \<Rightarrow> Some v | None \<Rightarrow> Some (Num 7600)))"
proof -
  let ?y = "builder \<lparr>options = [], demanded = []\<rparr>"
  have d: "demanded ?y = [''mnemonic'', ''ethereum'', ''connext-node'', ''postgres-database'']"
    by (simp add: builder_def chained_def option_def demandOption_def)
  have n: "map (\<lambda>(key, spec). (key, default_value spec)) (options ?y) =
     [(''mnemonic'', None), (''ethereum'', None), (''connext-messaging'', None),
      (''connext-node'', None), (''postgres-host'', None), (''postgres-port'', Some (Num 5432)),
      (''postgres-username'', None), (''postgres-password'', None),
      (''postgres-database'', None), (''port'', Some (Num 7600))]"
    by (simp add: builder_def chained_def option_def demandOption_def)
  have f: "(\<exists>err. parse ?y args = Inl err) \<longleftrightarrow>
        (\<exists>key \<in> {''mnemonic'', ''ethereum'', ''connext-node'', ''postgres-database''}.
           map_of args key = None)"
    unfolding parse_def missing_builder by (auto simp: filter_empty_conv)
  have r: "\<forall>err. parse ?y args = Inl err \<longrightarrow>
        trace (main e args) = [] \<and> failed (main e args) = Some err"
    by (simp add: main_def reject_def boot_def)
  have s: "\<forall>a. parse ?y args = Inr a \<longrightarrow>
        main e args = handler e a boot
        \<and> postgresPort a =
            (case map_of args ''postgres-port'' of Some v \<Rightarrow> Some v | None \<Rightarrow> Some (Num 5432))
        \<and> port a = (case map_of args ''port'' of Some v \<Rightarrow> Some v | None \<Rightarrow> Some (Num 7600))"
    by (auto simp: main_def parse_def given_builder_port given_builder_postgres_port
          split: if_splits)
  from d n f r s show ?thesis by blast
qed

theorem builder_required_and_defaults_witness:
  "(\<exists>err. parse (builder \<lparr>options = [], demanded = []\<rparr>)
            [(''ethereum'', Str ''http://localhost:8545'')] = Inl err)
   \<and> trace (main demo_env [(''ethereum'', Str ''http://localhost:8545'')]) = []
   \<and> (\<exists>a. parse (builder \<lparr>options = [], demanded = []\<rparr>) demo_args = Inr a
        \<and> main demo_env demo_args = handler demo_env a boot
        \<and> postgresPort a = Some (Num 5432) \<and> port a = Some (Num 7600))"
proof -
  let ?y = "builder \<lparr>options = [], demanded = []\<rparr>"
  let ?bad = "[(''ethereum'', Str ''http://localhost:8545'')]"
  note bad = builder_required_and_defaults[of ?bad demo_env]
  note good = builder_required_and_defaults[of demo_args demo_env]
  from bad have b1: "\<exists>err. parse ?y ?bad = Inl err" by simp
  with bad have b2: "trace (main demo_env ?bad) = []" by blast
  from good have "\<not> (\<exists>err. parse ?y demo_args = Inl err)" by (simp add: demo_args_def)
  then obtain a where a: "parse ?y demo_args = Inr a" by (cases "parse ?y demo_args") auto
  with good have "main demo_env demo_args = handler demo_env a boot
      \<and> postgresPort a = Some (Num 5432) \<and> port a = Some (Num 7600)"
    by (simp add: demo_args_def)
  with a b1 b2 show ?thesis by blast
qed

section \<open>Every payment follows the specified history\<close>

lemma history_append: "history k (tr @ tr') = history k tr @ history k tr'"
  by (simp add: history_def)

text \<open>Each stimulus, on the fields the invariant reads.\<close>

lemma on_unlocked_effect:
  "toBN (ev_amount data) = Inr n \<Longrightarrow> ev_meta data = Some m \<Longrightarrow>
   on_unlocked e data s =
     s\<lparr>trace := trace s @ map (\<lambda>(t, a). (t, Echo (delivered s), a))
          (received e \<lparr>paymentId = ev_paymentId data, amount = n, meta = m\<rparr> (now s)),
       delivered := Suc (delivered s),
       next_timer := Suc (next_timer s),
       timers := (timers s)(next_timer s \<mapsto>
          \<lparr>due = now s + 1000,
           callback = closure_of e (delivered s)
             \<lparr>paymentId = ev_paymentId data, amount = n, meta = m\<rparr>\<rparr>)\<rparr>"
  by (simp add: on_unlocked_def Let_def act_def setTimeout_def received_def closure_of_def)

lemma on_unlocked_raises:
  "toBN (ev_amount data) = Inl err \<or>
   (\<exists>n. toBN (ev_amount data) = Inr n) \<and> ev_meta data = None \<and> err = property_of_undefined e \<Longrightarrow>
   on_unlocked e data s = s\<lparr>trace := trace s @ [(now s, Emitter, Raised err)]\<rparr>"
  by (auto simp: on_unlocked_def Let_def raised_def act_def)

lemma on_unlocked_event_of:
  "on_unlocked e (event_of d) s =
     s\<lparr>trace := trace s @ map (\<lambda>(t, a). (t, Echo (delivered s), a)) (received e d (now s)),
       delivered := Suc (delivered s),
       next_timer := Suc (next_timer s),
       timers := (timers s)(next_timer s \<mapsto>
          \<lparr>due = now s + 1000, callback = closure_of e (delivered s) d\<rparr>)\<rparr>"
proof (cases d)
  case (fields pid amt m)
  have "toBN (ev_amount (event_of d)) = Inr amt" "ev_meta (event_of d) = Some m"
    by (simp_all add: fields event_of_def toBN_def)
  from on_unlocked_effect[OF this, of e s] show ?thesis
    by (simp add: fields event_of_def)
qed

lemma on_unlocked_cases [case_names Raises Reads]:
  obtains
    (Raises) err where
      "on_unlocked e data s = s\<lparr>trace := trace s @ [(now s, Emitter, Raised err)]\<rparr>"
  | (Reads) d where
      "on_unlocked e data s =
         s\<lparr>trace := trace s @ map (\<lambda>(t, a). (t, Echo (delivered s), a)) (received e d (now s)),
           delivered := Suc (delivered s),
           next_timer := Suc (next_timer s),
           timers := (timers s)(next_timer s \<mapsto>
              \<lparr>due = now s + 1000, callback = closure_of e (delivered s) d\<rparr>)\<rparr>"
proof (cases "toBN (ev_amount data)")
  case (Inl err)
  then have "on_unlocked e data s = s\<lparr>trace := trace s @ [(now s, Emitter, Raised err)]\<rparr>"
    by (intro on_unlocked_raises) simp
  then show ?thesis by (rule Raises)
next
  case (Inr n)
  show ?thesis
  proof (cases "ev_meta data")
    case None
    with Inr have "on_unlocked e data s =
        s\<lparr>trace := trace s @ [(now s, Emitter, Raised (property_of_undefined e))]\<rparr>"
      by (intro on_unlocked_raises) simp
    then show ?thesis by (rule Raises)
  next
    case (Some m)
    from on_unlocked_effect[OF Inr Some] show ?thesis by (rule Reads)
  qed
qed

lemma fire_effect:
  "timers s tid = Some \<lparr>due = u, callback = closure_of e k d\<rparr> \<Longrightarrow> u \<le> now s \<Longrightarrow>
   step e s (Fire tid) =
     s\<lparr>trace := trace s @ map (\<lambda>(t, a). (t, Echo k, a)) (sent e d (now s)),
       timers := (timers s)(tid := None),
       awaiting := (awaiting s)(tid \<mapsto> closure_of e k d)\<rparr>"
  by (simp add: echo_send_def Let_def act_def transfer_def sent_def closure_of_def echo_of_def)

lemma settle_effect:
  "awaiting s tid = Some (closure_of e k d) \<Longrightarrow>
   step e s (Settle tid r) =
     s\<lparr>trace := trace s @ map (\<lambda>(t, a). (t, Echo k, a)) (settled e d (now s) r),
       awaiting := (awaiting s)(tid := None)\<rparr>"
  by (cases r) (simp_all add: echo_settle_def act_def settled_def closure_of_def outcome_line_def)

lemma history_tagged:
  "history k (tr @ map (\<lambda>(t, a). (t, Echo j, a)) xs) = history k tr @ (if j = k then xs else [])"
  by (induction xs arbitrary: tr rule: rev_induct) (auto simp: history_def)


lemma echo_phase_cases [consumes 1, case_names Pending InFlight Done]:
  assumes "echo_phase e s k"
  obtains
    (Pending) d t0 where "t0 \<le> now s"
      "timers s k = Some \<lparr>due = t0 + 1000, callback = closure_of e k d\<rparr>" "awaiting s k = None"
      "history k (trace s) = received e d t0"
  | (InFlight) d t0 t1 where "t0 + 1000 \<le> t1" "t1 \<le> now s"
      "timers s k = None" "awaiting s k = Some (closure_of e k d)"
      "history k (trace s) = received e d t0 @ sent e d t1"
  | (Done) d t0 t1 t2 r where "t0 + 1000 \<le> t1" "t1 \<le> t2" "t2 \<le> now s"
      "timers s k = None" "awaiting s k = None"
      "history k (trace s) = received e d t0 @ sent e d t1 @ settled e d t2 r"
  using assms unfolding echo_phase_def
  apply (elim exE conjE)
  apply (erule disjE)
   apply auto[1]
  apply (erule disjE)
   apply auto[1]
  apply (elim conjE exE)
  apply auto
  done

lemma echo_phase_pending:
  "t0 \<le> now s \<Longrightarrow> timers s k = Some \<lparr>due = t0 + 1000, callback = closure_of e k d\<rparr> \<Longrightarrow>
   awaiting s k = None \<Longrightarrow> history k (trace s) = received e d t0 \<Longrightarrow> echo_phase e s k"
  unfolding echo_phase_def by blast

lemma echo_phase_inflight:
  "t0 + 1000 \<le> t1 \<Longrightarrow> t1 \<le> now s \<Longrightarrow> timers s k = None \<Longrightarrow>
   awaiting s k = Some (closure_of e k d) \<Longrightarrow>
   history k (trace s) = received e d t0 @ sent e d t1 \<Longrightarrow> echo_phase e s k"
  unfolding echo_phase_def
  apply (rule exI[of _ d], rule exI[of _ t0], rule conjI)
   apply simp
  apply (rule disjI2, rule disjI1)
  apply auto
  done

lemma echo_phase_done:
  "t0 + 1000 \<le> t1 \<Longrightarrow> t1 \<le> t2 \<Longrightarrow> t2 \<le> now s \<Longrightarrow> timers s k = None \<Longrightarrow>
   awaiting s k = None \<Longrightarrow>
   history k (trace s) = received e d t0 @ sent e d t1 @ settled e d t2 r \<Longrightarrow> echo_phase e s k"
  unfolding echo_phase_def
  apply (rule exI[of _ d], rule exI[of _ t0], rule conjI)
   apply simp
  apply (rule disjI2, rule disjI2)
  apply auto
  done

lemma echo_phase_frame:
  assumes "echo_phase e s k"
    and "timers s' k = timers s k" and "awaiting s' k = awaiting s k"
    and "history k (trace s') = history k (trace s)" and "now s \<le> now s'"
  shows "echo_phase e s' k"
  using assms(1)
proof (cases rule: echo_phase_cases)
  case (Pending d t0)
  show ?thesis
    by (rule echo_phase_pending[of t0 _ _ _ d]) (use Pending assms in simp_all)
next
  case (InFlight d t0 t1)
  show ?thesis
    by (rule echo_phase_inflight[of t0 t1 _ _ _ d]) (use InFlight assms in simp_all)
next
  case (Done d t0 t1 t2 r)
  show ?thesis
    by (rule echo_phase_done[of t0 t1 t2 _ _ _ d r]) (use Done assms in simp_all)
qed

lemma echo_inv_reads:
  assumes inv: "echo_inv e s"
  shows "echo_inv e
     (s\<lparr>trace := trace s @ map (\<lambda>(t, a). (t, Echo (delivered s), a)) (received e d (now s)),
       delivered := Suc (delivered s),
       next_timer := Suc (next_timer s),
       timers := (timers s)(next_timer s \<mapsto>
          \<lparr>due = now s + 1000, callback = closure_of e (delivered s) d\<rparr>)\<rparr>)"
proof -
  define s' where "s' = s\<lparr>trace := trace s @ map (\<lambda>(t, a). (t, Echo (delivered s), a)) (received e d (now s)),
       delivered := Suc (delivered s),
       next_timer := Suc (next_timer s),
       timers := (timers s)(next_timer s \<mapsto>
          \<lparr>due = now s + 1000, callback = closure_of e (delivered s) d\<rparr>)\<rparr>"
  from inv have nt: "next_timer s = delivered s" by (simp add: echo_inv_def)
  have tr: "\<And>k. history k (trace s') =
      history k (trace s) @ (if delivered s = k then received e d (now s) else [])"
    by (simp add: s'_def history_tagged)
  have tm: "timers s' = (timers s)(delivered s \<mapsto>
          \<lparr>due = now s + 1000, callback = closure_of e (delivered s) d\<rparr>)"
    by (simp add: s'_def nt)
  have aw: "awaiting s' = awaiting s" and nw: "now s' = now s"
    and dl: "delivered s' = Suc (delivered s)" and nt': "next_timer s' = Suc (next_timer s)"
    by (simp_all add: s'_def)
  have "if k < delivered s' then echo_phase e s' k
          else timers s' k = None \<and> awaiting s' k = None \<and> history k (trace s') = []" for k
  proof -
    consider (old) "k < delivered s" | (new) "k = delivered s" | (later) "delivered s < k"
      by linarith
    then show ?thesis
    proof cases
      case old
      with inv have "echo_phase e s k" by (simp add: echo_inv_def)
      then have "echo_phase e s' k"
        by (rule echo_phase_frame) (use old in \<open>simp_all add: tm aw tr nw\<close>)
      with old show ?thesis by (simp add: dl)
    next
      case new
      from inv new have "timers s k = None \<and> awaiting s k = None \<and> history k (trace s) = []"
        by (simp add: echo_inv_def)
      then have "echo_phase e s' k"
        using new by (intro echo_phase_pending[of "now s" _ _ _ d]) (simp_all add: tm aw tr nw)
      with new show ?thesis by (simp add: dl)
    next
      case later
      with inv have "timers s k = None \<and> awaiting s k = None \<and> history k (trace s) = []"
        by (simp add: echo_inv_def)
      with later show ?thesis by (simp add: dl tm aw tr)
    qed
  qed
  with nt nt' dl show ?thesis unfolding s'_def[symmetric] by (simp add: echo_inv_def)
qed


lemma echo_inv_fire:
  assumes inv: "echo_inv e s"
  shows "echo_inv e (step e s (Fire tid))"
proof (cases "timers s tid")
  case None
  with inv show ?thesis by simp
next
  case (Some tm)
  show ?thesis
  proof (cases "due tm \<le> now s")
    case False
    with Some inv show ?thesis by simp
  next
    case True
    from inv Some have lt: "tid < delivered s"
      by (cases "tid < delivered s") (auto simp: echo_inv_def)
    with inv have "echo_phase e s tid" by (simp add: echo_inv_def)
    then obtain d t0 where p: "t0 \<le> now s"
      "timers s tid = Some \<lparr>due = t0 + 1000, callback = closure_of e tid d\<rparr>"
      "awaiting s tid = None" "history tid (trace s) = received e d t0"
      using Some by (cases rule: echo_phase_cases) auto
    from p(2) Some True have du: "t0 + 1000 \<le> now s" by auto
    define s' where "s' = step e s (Fire tid)"
    have eff: "s' = s\<lparr>trace := trace s @ map (\<lambda>(t, a). (t, Echo tid, a)) (sent e d (now s)),
       timers := (timers s)(tid := None),
       awaiting := (awaiting s)(tid \<mapsto> closure_of e tid d)\<rparr>"
      unfolding s'_def using p(2) du by (rule fire_effect)
    have "if k < delivered s' then echo_phase e s' k
          else timers s' k = None \<and> awaiting s' k = None \<and> history k (trace s') = []" for k
    proof (cases "k = tid")
      case True
      have "echo_phase e s' tid"
        by (rule echo_phase_inflight[of t0 "now s" _ _ _ d])
           (use p du in \<open>simp_all add: eff history_tagged\<close>)
      with True lt show ?thesis by (simp add: eff)
    next
      case False
      show ?thesis
      proof (cases "k < delivered s")
        case True
        with inv have "echo_phase e s k" by (simp add: echo_inv_def)
        then have "echo_phase e s' k"
          by (rule echo_phase_frame) (use False in \<open>simp_all add: eff history_tagged\<close>)
        with True show ?thesis by (simp add: eff)
      next
        case ge: False
        with inv have "timers s k = None \<and> awaiting s k = None \<and> history k (trace s) = []"
          by (simp add: echo_inv_def)
        with ge False show ?thesis by (simp add: eff history_tagged)
      qed
    qed
    moreover from inv have "next_timer s' = delivered s'" by (simp add: eff echo_inv_def)
    ultimately show ?thesis unfolding s'_def[symmetric] by (simp add: echo_inv_def)
  qed
qed

lemma echo_inv_settle:
  assumes inv: "echo_inv e s"
  shows "echo_inv e (step e s (Settle tid r))"
proof (cases "awaiting s tid")
  case None
  with inv show ?thesis by simp
next
  case (Some c)
  from inv Some have lt: "tid < delivered s"
    by (cases "tid < delivered s") (auto simp: echo_inv_def)
  with inv have "echo_phase e s tid" by (simp add: echo_inv_def)
  then obtain d t0 t1 where p: "t0 + 1000 \<le> t1" "t1 \<le> now s"
      "timers s tid = None" "awaiting s tid = Some (closure_of e tid d)"
      "history tid (trace s) = received e d t0 @ sent e d t1"
    using Some by (cases rule: echo_phase_cases) auto
  define s' where "s' = step e s (Settle tid r)"
  have eff: "s' = s\<lparr>trace := trace s @ map (\<lambda>(t, a). (t, Echo tid, a)) (settled e d (now s) r),
       awaiting := (awaiting s)(tid := None)\<rparr>"
    unfolding s'_def using p(4) by (rule settle_effect)
  have "if k < delivered s' then echo_phase e s' k
        else timers s' k = None \<and> awaiting s' k = None \<and> history k (trace s') = []" for k
  proof (cases "k = tid")
    case True
    have "echo_phase e s' tid"
      by (rule echo_phase_done[of t0 t1 "now s" _ _ _ d r])
         (use p in \<open>simp_all add: eff history_tagged\<close>)
    with True lt show ?thesis by (simp add: eff)
  next
    case False
    show ?thesis
    proof (cases "k < delivered s")
      case True
      with inv have "echo_phase e s k" by (simp add: echo_inv_def)
      then have "echo_phase e s' k"
        by (rule echo_phase_frame) (use False in \<open>simp_all add: eff history_tagged\<close>)
      with True show ?thesis by (simp add: eff)
    next
      case ge: False
      with inv have "timers s k = None \<and> awaiting s k = None \<and> history k (trace s) = []"
        by (simp add: echo_inv_def)
      with ge False show ?thesis by (simp add: eff history_tagged)
    qed
  qed
  moreover from inv have "next_timer s' = delivered s'" by (simp add: eff echo_inv_def)
  ultimately show ?thesis unfolding s'_def[symmetric] by (simp add: echo_inv_def)
qed

text \<open>Stimuli that leave every payment alone.\<close>

lemma echo_inv_frame:
  assumes inv: "echo_inv e s"
    and "timers s' = timers s" and "awaiting s' = awaiting s"
    and "\<And>k. history k (trace s') = history k (trace s)" and "now s \<le> now s'"
    and "delivered s' = delivered s" and "next_timer s' = next_timer s"
  shows "echo_inv e s'"
proof -
  have "if k < delivered s' then echo_phase e s' k
        else timers s' k = None \<and> awaiting s' k = None \<and> history k (trace s') = []" for k
  proof (cases "k < delivered s")
    case True
    with inv have "echo_phase e s k" by (simp add: echo_inv_def)
    then have "echo_phase e s' k"
      by (rule echo_phase_frame) (use assms in simp_all)
    with True assms(6) show ?thesis by simp
  next
    case False
    with inv have "timers s k = None \<and> awaiting s k = None \<and> history k (trace s) = []"
      by (simp add: echo_inv_def)
    with False assms show ?thesis by simp
  qed
  moreover from inv assms have "next_timer s' = delivered s'" by (simp add: echo_inv_def)
  ultimately show ?thesis by (simp add: echo_inv_def)
qed

lemma echo_inv_step:
  assumes inv: "echo_inv e s"
  shows "echo_inv e (step e s x)"
proof (cases x)
  case (Deliver d)
  have "echo_inv e (on_unlocked e d s)"
  proof (cases e d s rule: on_unlocked_cases)
    case (Raises err)
    from inv show ?thesis unfolding Raises
      by (rule echo_inv_frame) (simp_all add: history_def)
  next
    case (Reads p)
    from inv show ?thesis unfolding Reads by (rule echo_inv_reads)
  qed
  with inv Deliver show ?thesis by simp
next
  case (Advance n)
  from inv show ?thesis unfolding Advance
    by (rule echo_inv_frame) simp_all
next
  case (Fire tid)
  show ?thesis unfolding Fire by (rule echo_inv_fire[OF inv])
next
  case (Settle tid r)
  show ?thesis unfolding Settle by (rule echo_inv_settle[OF inv])
next
  case Bound
  from inv show ?thesis unfolding Bound
    by (rule echo_inv_frame) (simp_all add: act_def history_def split: server_state.splits)
next
  case (Http m p)
  from inv show ?thesis unfolding Http
    by (rule echo_inv_frame)
       (simp_all add: dispatch_def Let_def act_def history_def split: server_state.splits)
qed

lemma echo_inv_run: "echo_inv e s \<Longrightarrow> echo_inv e (run e s ins)"
  unfolding run_def by (induction ins arbitrary: s) (simp_all add: echo_inv_step)

lemma handler_echo_fields:
  "timers (handler e a s) = timers s \<and> awaiting (handler e a s) = awaiting s \<and>
   delivered (handler e a s) = delivered s \<and> next_timer (handler e a s) = next_timer s \<and>
   now (handler e a s) = now s \<and> history k (trace (handler e a s)) = history k (trace s)"
  by (simp add: handler_def Let_def act_def reject_def history_def split: sum.splits option.splits)

lemma echo_inv_boot: "echo_inv e boot"
  by (simp add: echo_inv_def boot_def history_def)

lemma echo_inv_main: "echo_inv e (main e args)"
proof (cases "parse (builder \<lparr>options = [], demanded = []\<rparr>) args")
  case (Inl err)
  have "echo_inv e (reject err boot)"
    using echo_inv_boot[of e] by (rule echo_inv_frame) (simp_all add: reject_def)
  with Inl show ?thesis by (simp add: main_def)
next
  case (Inr a)
  have "echo_inv e (handler e a boot)"
    using echo_inv_boot[of e] by (rule echo_inv_frame) (simp_all add: handler_echo_fields)
  with Inr show ?thesis by (simp add: main_def)
qed

section \<open>Transfers and the runs of the event loop\<close>

lemma transfers_received: "history k (trace s) = received e d t0 \<Longrightarrow> transfers k s = []"
  by (simp add: transfers_def received_def)

lemma transfers_sent:
  "history k (trace s) = received e d t0 @ sent e d t1 \<Longrightarrow> transfers k s = [(t1, echo_of d)]"
  by (simp add: transfers_def received_def sent_def)

lemma transfers_settled:
  "history k (trace s) = received e d t0 @ sent e d t1 @ settled e d t2 r \<Longrightarrow>
   transfers k s = [(t1, echo_of d)]"
  by (cases r) (simp_all add: transfers_def received_def sent_def settled_def outcome_line_def)

lemma only_echo_transfers_step: "only_echo_transfers s \<Longrightarrow> only_echo_transfers (step e s x)"
  unfolding only_echo_transfers_def
  by (cases x)
     (auto simp: on_unlocked_def raised_def toBN_def Let_def act_def setTimeout_def echo_send_def transfer_def
        echo_settle_def dispatch_def split: option.splits sum.splits server_state.splits bignumberish.splits)

lemma only_echo_transfers_run: "only_echo_transfers s \<Longrightarrow> only_echo_transfers (run e s ins)"
  unfolding run_def by (induction ins arbitrary: s) (simp_all add: only_echo_transfers_step)

lemma only_echo_transfers_main: "only_echo_transfers (main e args)"
  unfolding only_echo_transfers_def
  by (auto simp: main_def boot_def reject_def handler_def Let_def act_def
        split: sum.splits option.splits)

lemma history_member:
  "(t, Echo k, a) \<in> set tr \<Longrightarrow> (t, a) \<in> set (history k tr)"
  by (force simp: history_def)

text \<open>
  C1. In every run of the started process, every payment the handler has received
  (the \<open>k\<close>-th, with payload \<open>d\<close> received at \<open>t0\<close>) has at most one transfer, and that
  one echoes it: the amount of \<open>d\<close>, the sender of \<open>d\<close> as recipient, the zero address as
  asset. While the timer of the payment is pending there is no transfer, the timer is due
  at \<open>t0 + 1000\<close>, firing it before then does nothing and firing it from then on submits
  the transfer; once the timer has fired there is exactly one transfer, submitted at some
  \<open>t1\<close> with \<open>t0 + 1000 \<le> t1\<close>. No transfer is written outside the payments, and every
  event that carries an amount and a sender, delivered to the subscribed process, becomes
  one of the payments.
\<close>

theorem echo_exactly_one_transfer:
  "(\<forall>k < delivered (run e (main e args) ins). \<exists>d t0.
       take 1 (history k (trace (run e (main e args) ins))) = [(t0, Emitted d)] \<and>
       (case timers (run e (main e args) ins) k of
          Some tm \<Rightarrow>
            transfers k (run e (main e args) ins) = [] \<and> due tm = t0 + 1000 \<and>
            (if due tm \<le> now (run e (main e args) ins)
             then transfers k (step e (run e (main e args) ins) (Fire k)) =
                    [(now (run e (main e args) ins),
                      \<lparr>tx_amount = amount d, recipient = sender (meta d), assetId = AddressZero\<rparr>)]
             else step e (run e (main e args) ins) (Fire k) = run e (main e args) ins)
        | None \<Rightarrow>
            (\<exists>t1. t0 + 1000 \<le> t1 \<and>
               transfers k (run e (main e args) ins) =
                 [(t1, \<lparr>tx_amount = amount d, recipient = sender (meta d), assetId = AddressZero\<rparr>)])))
   \<and> (\<forall>t who p. (t, who, Transfer p) \<in> set (trace (run e (main e args) ins)) \<longrightarrow>
         (\<exists>k < delivered (run e (main e args) ins). who = Echo k))
   \<and> (subscribed (run e (main e args) ins) \<longrightarrow>
         (\<forall>d. delivered (step e (run e (main e args) ins) (Deliver (event_of d))) =
                Suc (delivered (run e (main e args) ins)) \<and>
              take 1 (history (delivered (run e (main e args) ins))
                        (trace (step e (run e (main e args) ins) (Deliver (event_of d))))) =
                [(now (run e (main e args) ins), Emitted d)]))"
proof -
  define s where "s = run e (main e args) ins"
  have inv: "echo_inv e s" unfolding s_def by (intro echo_inv_run echo_inv_main)
  have new: "delivered (step e s (Deliver (event_of d))) = Suc (delivered s) \<and>
      take 1 (history (delivered s) (trace (step e s (Deliver (event_of d))))) =
        [(now s, Emitted d)]"
    if "subscribed s" for d
  proof -
    from inv have "history (delivered s) (trace s) = []" by (simp add: echo_inv_def)
    with that have "history (delivered s) (trace (step e s (Deliver (event_of d)))) =
        received e d (now s)"
      by (simp add: on_unlocked_event_of history_tagged)
    moreover from that have "delivered (step e s (Deliver (event_of d))) = Suc (delivered s)"
      by (simp add: on_unlocked_event_of)
    ultimately show ?thesis by (simp add: received_def)
  qed
  have oet: "only_echo_transfers s"
    unfolding s_def by (intro only_echo_transfers_run only_echo_transfers_main)
  have per: "\<exists>d t0. take 1 (history k (trace s)) = [(t0, Emitted d)] \<and>
       (case timers s k of
          Some tm \<Rightarrow> transfers k s = [] \<and> due tm = t0 + 1000 \<and>
            (if due tm \<le> now s
             then transfers k (step e s (Fire k)) = [(now s, echo_of d)]
             else step e s (Fire k) = s)
        | None \<Rightarrow> (\<exists>t1. t0 + 1000 \<le> t1 \<and> transfers k s = [(t1, echo_of d)]))"
    if k: "k < delivered s" for k
  proof -
    from inv k have "echo_phase e s k" by (simp add: echo_inv_def)
    then show ?thesis
    proof (cases rule: echo_phase_cases)
      case (Pending d t0)
      have "transfers k (step e s (Fire k)) = [(now s, echo_of d)]" if du: "t0 + 1000 \<le> now s"
      proof -
        have "history k (trace (step e s (Fire k))) = received e d t0 @ sent e d (now s)"
          by (simp only: fire_effect[OF Pending(2) du]) (simp add: history_tagged Pending(4))
        then show ?thesis by (rule transfers_sent)
      qed
      moreover have "step e s (Fire k) = s" if "\<not> t0 + 1000 \<le> now s"
        using that Pending(2) by simp
      moreover have "take 1 (history k (trace s)) = [(t0, Emitted d)]"
        by (simp add: Pending(4) received_def)
      moreover have "transfers k s = []" using Pending(4) by (rule transfers_received)
      ultimately show ?thesis
        by (intro exI[of _ d] exI[of _ t0]) (simp add: Pending(2))
    next
      case (InFlight d t0 t1)
      have "take 1 (history k (trace s)) = [(t0, Emitted d)]"
        by (simp add: InFlight(5) received_def)
      moreover have "transfers k s = [(t1, echo_of d)]" using InFlight(5) by (rule transfers_sent)
      ultimately show ?thesis
        using InFlight(1) by (intro exI[of _ d] exI[of _ t0]) (auto simp: InFlight(3))
    next
      case (Done d t0 t1 t2 r)
      have "take 1 (history k (trace s)) = [(t0, Emitted d)]"
        by (simp add: Done(6) received_def)
      moreover have "transfers k s = [(t1, echo_of d)]" using Done(6) by (rule transfers_settled)
      ultimately show ?thesis
        using Done(1) by (intro exI[of _ d] exI[of _ t0]) (auto simp: Done(4))
    qed
  qed
  have attr: "\<exists>k < delivered s. who = Echo k" if m: "(t, who, Transfer p) \<in> set (trace s)" for t who p
  proof -
    from oet m obtain k where w: "who = Echo k" unfolding only_echo_transfers_def by blast
    with m have "(t, Transfer p) \<in> set (history k (trace s))" by (simp add: history_member)
    then have "history k (trace s) \<noteq> []" by auto
    with inv have "k < delivered s" by (cases "k < delivered s") (auto simp: echo_inv_def)
    with w show ?thesis by blast
  qed
  from per attr new show ?thesis unfolding s_def[symmetric] echo_of_def by blast
qed


theorem echo_exactly_one_transfer_witness:
  "0 < delivered (run demo_env (main demo_env demo_args) [Deliver (event_of payment_a), Advance 1000, Fire 0])
   \<and> (\<exists>d t0.
        take 1 (history 0 (trace (run demo_env (main demo_env demo_args)
                  [Deliver (event_of payment_a), Advance 1000, Fire 0]))) = [(t0, Emitted d)] \<and>
        (\<exists>t1. t0 + 1000 \<le> t1 \<and>
           transfers 0 (run demo_env (main demo_env demo_args)
               [Deliver (event_of payment_a), Advance 1000, Fire 0]) =
             [(t1, \<lparr>tx_amount = amount d, recipient = sender (meta d), assetId = AddressZero\<rparr>)]))
   \<and> transfers 0 (run demo_env (main demo_env demo_args) [Deliver (event_of payment_a), Advance 1000, Fire 0]) =
        [(1000, \<lparr>tx_amount = 1000000000000000000, recipient = ''0xAAA'', assetId = AddressZero\<rparr>)]
   \<and> transfers 0 (run demo_env (main demo_env demo_args) [Deliver (event_of payment_a), Advance 999, Fire 0]) = []
   \<and> (1000, Echo 0,
        Transfer \<lparr>tx_amount = 1000000000000000000, recipient = ''0xAAA'', assetId = AddressZero\<rparr>)
       \<in> set (trace (run demo_env (main demo_env demo_args)
                 [Deliver (event_of payment_a), Advance 1000, Fire 0]))
   \<and> (\<exists>k < delivered (run demo_env (main demo_env demo_args)
                 [Deliver (event_of payment_a), Advance 1000, Fire 0]). Echo 0 = Echo k)
   \<and> subscribed (run demo_env (main demo_env demo_args) [Deliver (event_of payment_a), Advance 1000, Fire 0])
   \<and> delivered (run demo_env (main demo_env demo_args)
                 [Deliver (event_of payment_a), Advance 1000, Fire 0, Deliver (event_of payment_b)]) = 2"
proof -
  let ?s = "run demo_env (main demo_env demo_args) [Deliver (event_of payment_a), Advance 1000, Fire 0]"
  have d: "delivered ?s = 1" and t: "timers ?s 0 = None" and sub: "subscribed ?s"
    by (simp_all add: eval_defs)
  have mem: "(1000, Echo 0,
        Transfer \<lparr>tx_amount = 1000000000000000000, recipient = ''0xAAA'', assetId = AddressZero\<rparr>)
       \<in> set (trace ?s)"
    by (simp add: eval_defs)
  have st: "run demo_env (main demo_env demo_args)
        [Deliver (event_of payment_a), Advance 1000, Fire 0, Deliver (event_of payment_b)] =
      step demo_env ?s (Deliver (event_of payment_b))"
    by (simp add: run_def)
  note T = echo_exactly_one_transfer[of demo_env demo_args
      "[Deliver (event_of payment_a), Advance 1000, Fire 0]"]
  from d have d0: "0 < delivered ?s" by simp
  note T1 = T[THEN conjunct1, rule_format, OF d0]
  note T2 = T[THEN conjunct2, THEN conjunct1, rule_format, OF mem]
  note T3 = T[THEN conjunct2, THEN conjunct2, rule_format, OF sub, of payment_b, THEN conjunct1]
  from T1 have 1: "\<exists>d t0.
        take 1 (history 0 (trace ?s)) = [(t0, Emitted d)] \<and>
        (\<exists>t1. t0 + 1000 \<le> t1 \<and>
           transfers 0 ?s =
             [(t1, \<lparr>tx_amount = amount d, recipient = sender (meta d), assetId = AddressZero\<rparr>)])"
    unfolding t by (simp del: step.simps)
  have 2: "transfers 0 ?s =
        [(1000, \<lparr>tx_amount = 1000000000000000000, recipient = ''0xAAA'', assetId = AddressZero\<rparr>)]"
    by (simp add: eval_defs)
  have 3: "transfers 0 (run demo_env (main demo_env demo_args)
        [Deliver (event_of payment_a), Advance 999, Fire 0]) = []"
    by (simp add: eval_defs)
  from T3 d have 4: "delivered (step demo_env ?s (Deliver (event_of payment_b))) = 2"
    by (simp del: step.simps)
  from d0 1 2 3 mem T2 sub 4 show ?thesis unfolding st by blast
qed

lemma run_Nil: "run e s [] = s"
  by (simp add: run_def)

lemma run_Cons: "run e s (x # xs) = run e (step e s x) xs"
  by (simp add: run_def)

lemma step_static:
  "failed (step e s x) = failed s \<and> subscribed (step e s x) = subscribed s \<and>
   now s \<le> now (step e s x) \<and> (\<exists>tr. trace (step e s x) = trace s @ tr)"
  by (cases x)
     (auto simp: on_unlocked_def raised_def toBN_def Let_def act_def setTimeout_def echo_send_def transfer_def
        echo_settle_def dispatch_def split: option.splits sum.splits server_state.splits bignumberish.splits)

lemma run_static:
  "failed (run e s ins) = failed s \<and> subscribed (run e s ins) = subscribed s \<and>
   now s \<le> now (run e s ins) \<and> (\<exists>tr. trace (run e s ins) = trace s @ tr)"
proof (induction ins arbitrary: s)
  case Nil
  show ?case by (simp add: run_Nil)
next
  case (Cons x xs)
  from Cons[of "step e s x"] step_static[of e s x] show ?case
    by (auto simp: run_Cons)
qed

text \<open>
  C4. In every run, the entries of one payment are an initial part (3, 6 or all 8
  entries) of the sequence: received, logged, timer set (at \<open>t0\<close>); timer fired, logged,
  transfer submitted (at \<open>t1\<close>, with \<open>t0 + 1000 \<le> t1\<close>); transfer settled with \<open>r\<close>, outcome
  logged (at \<open>t2\<close>, with \<open>t1 \<le> t2\<close>). So the delay precedes the attempt, the settlement of
  the attempt precedes its log line, and the log line of a success carries the payment
  identifier of the response the call resolved with.
\<close>

theorem echo_order_within_event:
  "\<forall>k < delivered (run e (main e args) ins). \<exists>d t0 t1 t2 r n.
      n \<in> {3, 6, 8} \<and> t0 + 1000 \<le> t1 \<and> t1 \<le> t2 \<and>
      history k (trace (run e (main e args) ins)) =
        take n
          [(t0, Emitted d),
           (t0, Log Info (''Received payment '' @ paymentId d @ '' ('' @ formatEther e (amount d) @
                  '' ETH) from '' @ sender (meta d))),
           (t0, SetTimeout 1000),
           (t1, TimerFired),
           (t1, Log Info (''Send '' @ formatEther e (amount d) @ '' ETH back to '' @ sender (meta d))),
           (t1, Transfer \<lparr>tx_amount = amount d, recipient = sender (meta d), assetId = AddressZero\<rparr>),
           (t2, Settled r),
           (t2, case r of
                  Inr resp \<Rightarrow> Log Info (formatEther e (amount d) @ '' ETH sent back to '' @
                                sender (meta d) @ '' via payment '' @ response_paymentId resp)
                | Inl err \<Rightarrow> Log Err (''Failed to send payment back to '' @ sender (meta d) @
                                '': '' @ message err))]"
proof (intro allI impI)
  fix k
  define s where "s = run e (main e args) ins"
  assume "k < delivered (run e (main e args) ins)"
  then have k: "k < delivered s" by (simp add: s_def)
  have inv: "echo_inv e s" unfolding s_def by (intro echo_inv_run echo_inv_main)
  let ?H = "\<lambda>d t0 t1 t2 r. received e d t0 @ sent e d t1 @ settled e d t2 r"
  have "\<exists>d t0 t1 t2 r n. n \<in> {3, 6, 8} \<and> t0 + 1000 \<le> t1 \<and> t1 \<le> t2 \<and>
      history k (trace s) = take n (?H d t0 t1 t2 r)"
  proof -
    from inv k have "echo_phase e s k" by (simp add: echo_inv_def)
    then show ?thesis
    proof (cases rule: echo_phase_cases)
      case (Pending d t0)
      have "history k (trace s) = take 3 (?H d t0 (t0 + 1000) (t0 + 1000) (Inl (Error [])))"
        by (simp add: Pending(4) received_def)
      then show ?thesis
        by (intro exI[of _ d] exI[of _ t0] exI[of _ "t0 + 1000"] exI[of _ "Inl (Error [])"]
              exI[of _ "3::nat"]) simp
    next
      case (InFlight d t0 t1)
      have "history k (trace s) = take 6 (?H d t0 t1 t1 (Inl (Error [])))"
        by (simp add: InFlight(5) received_def sent_def)
      with InFlight(1) show ?thesis
        by (intro exI[of _ d] exI[of _ t0] exI[of _ t1] exI[of _ "Inl (Error [])"]
              exI[of _ "6::nat"]) simp
    next
      case (Done d t0 t1 t2 r)
      have "history k (trace s) = take 8 (?H d t0 t1 t2 r)"
        by (simp add: Done(6) received_def sent_def settled_def)
      with Done(1,2) show ?thesis
        by (intro exI[of _ d] exI[of _ t0] exI[of _ t1] exI[of _ t2] exI[of _ r]
              exI[of _ "8::nat"]) simp
    qed
  qed
  then show "\<exists>d t0 t1 t2 r n. n \<in> {3, 6, 8} \<and> t0 + 1000 \<le> t1 \<and> t1 \<le> t2 \<and>
      history k (trace (run e (main e args) ins)) =
        take n
          [(t0, Emitted d),
           (t0, Log Info (''Received payment '' @ paymentId d @ '' ('' @ formatEther e (amount d) @
                  '' ETH) from '' @ sender (meta d))),
           (t0, SetTimeout 1000),
           (t1, TimerFired),
           (t1, Log Info (''Send '' @ formatEther e (amount d) @ '' ETH back to '' @ sender (meta d))),
           (t1, Transfer \<lparr>tx_amount = amount d, recipient = sender (meta d), assetId = AddressZero\<rparr>),
           (t2, Settled r),
           (t2, case r of
                  Inr resp \<Rightarrow> Log Info (formatEther e (amount d) @ '' ETH sent back to '' @
                                sender (meta d) @ '' via payment '' @ response_paymentId resp)
                | Inl err \<Rightarrow> Log Err (''Failed to send payment back to '' @ sender (meta d) @
                                '': '' @ message err))]"
    unfolding s_def received_def sent_def settled_def outcome_line_def echo_of_def
    by simp
qed


theorem echo_order_within_event_witness:
  "0 < delivered (run demo_env (main demo_env demo_args)
          [Deliver (event_of payment_a), Advance 1000, Fire 0, Advance 7,
           Settle 0 (Inr \<lparr>response_paymentId = ''0x99''\<rparr>)])
   \<and> (\<exists>d t0 t1 t2 r n.
      n \<in> {3, 6, 8} \<and> t0 + 1000 \<le> t1 \<and> t1 \<le> t2 \<and>
      history 0 (trace (run demo_env (main demo_env demo_args)
          [Deliver (event_of payment_a), Advance 1000, Fire 0, Advance 7,
           Settle 0 (Inr \<lparr>response_paymentId = ''0x99''\<rparr>)])) =
        take n
          [(t0, Emitted d),
           (t0, Log Info (''Received payment '' @ paymentId d @ '' ('' @
                  formatEther demo_env (amount d) @ '' ETH) from '' @ sender (meta d))),
           (t0, SetTimeout 1000),
           (t1, TimerFired),
           (t1, Log Info (''Send '' @ formatEther demo_env (amount d) @ '' ETH back to '' @
                  sender (meta d))),
           (t1, Transfer \<lparr>tx_amount = amount d, recipient = sender (meta d), assetId = AddressZero\<rparr>),
           (t2, Settled r),
           (t2, case r of
                  Inr resp \<Rightarrow> Log Info (formatEther demo_env (amount d) @ '' ETH sent back to '' @
                                sender (meta d) @ '' via payment '' @ response_paymentId resp)
                | Inl err \<Rightarrow> Log Err (''Failed to send payment back to '' @ sender (meta d) @
                                '': '' @ message err))])
   \<and> history 0 (trace (run demo_env (main demo_env demo_args)
          [Deliver (event_of payment_a), Advance 1000, Fire 0, Advance 7,
           Settle 0 (Inr \<lparr>response_paymentId = ''0x99''\<rparr>)])) =
        [(0, Emitted payment_a),
         (0, Log Info ''Received payment 0x01 (1.0 ETH) from 0xAAA''),
         (0, SetTimeout 1000),
         (1000, TimerFired),
         (1000, Log Info ''Send 1.0 ETH back to 0xAAA''),
         (1000, Transfer \<lparr>tx_amount = 1000000000000000000, recipient = ''0xAAA'',
                          assetId = AddressZero\<rparr>),
         (1007, Settled (Inr \<lparr>response_paymentId = ''0x99''\<rparr>)),
         (1007, Log Info ''1.0 ETH sent back to 0xAAA via payment 0x99'')]"
proof -
  let ?ins = "[Deliver (event_of payment_a), Advance 1000, Fire 0, Advance 7,
           Settle 0 (Inr \<lparr>response_paymentId = ''0x99''\<rparr>)]"
  let ?s = "run demo_env (main demo_env demo_args) ?ins"
  have d: "0 < delivered ?s" by (simp add: eval_defs)
  note T = echo_order_within_event[of demo_env demo_args ?ins, rule_format, OF d]
  have h: "history 0 (trace ?s) =
        [(0, Emitted payment_a),
         (0, Log Info ''Received payment 0x01 (1.0 ETH) from 0xAAA''),
         (0, SetTimeout 1000),
         (1000, TimerFired),
         (1000, Log Info ''Send 1.0 ETH back to 0xAAA''),
         (1000, Transfer \<lparr>tx_amount = 1000000000000000000, recipient = ''0xAAA'',
                          assetId = AddressZero\<rparr>),
         (1007, Settled (Inr \<lparr>response_paymentId = ''0x99''\<rparr>)),
         (1007, Log Info ''1.0 ETH sent back to 0xAAA via payment 0x99'')]"
    by (simp add: eval_defs)
  from d T h show ?thesis by blast
qed

section \<open>A failed transfer\<close>

text \<open>How startup ends: failed, or subscribed with the server starting.\<close>

lemma handler_outcome:
  assumes "failed s = None" "\<not> subscribed s" "server s = NoServer"
  shows "(failed (handler e a s) \<noteq> None \<and> \<not> subscribed (handler e a s) \<and>
            server (handler e a s) = NoServer)
         \<or> (failed (handler e a s) = None \<and> subscribed (handler e a s) \<and>
            server (handler e a s) = Starting \<lparr>morgan = True, routes = [(''GET'', ''/'')]\<rparr> (port a))"
  using assms
  by (simp add: handler_def Let_def act_def reject_def split: sum.splits option.splits)

lemma main_outcome:
  "(failed (main e args) \<noteq> None \<and> \<not> subscribed (main e args) \<and> server (main e args) = NoServer)
   \<or> (failed (main e args) = None \<and> subscribed (main e args) \<and>
       (\<exists>p. server (main e args) = Starting \<lparr>morgan = True, routes = [(''GET'', ''/'')]\<rparr> p))"
proof (cases "parse (builder \<lparr>options = [], demanded = []\<rparr>) args")
  case (Inl err)
  then show ?thesis by (simp add: main_def reject_def boot_def)
next
  case (Inr a)
  have "failed boot = None" "\<not> subscribed boot" "server boot = NoServer"
    by (simp_all add: boot_def)
  from handler_outcome[OF this, of e a] Inr show ?thesis
    by (auto simp: main_def)
qed

lemma alive_step: "alive s \<Longrightarrow> alive (step e s x)"
  unfolding alive_def
  by (cases x)
     (auto simp: on_unlocked_def raised_def toBN_def Let_def act_def setTimeout_def echo_send_def transfer_def
        echo_settle_def dispatch_def split: option.splits sum.splits server_state.splits bignumberish.splits)

lemma alive_run: "alive s \<Longrightarrow> alive (run e s ins)"
  unfolding run_def by (induction ins arbitrary: s) (simp_all add: alive_step)

lemma main_delivered: "delivered (main e args) = 0"
  by (cases "parse (builder \<lparr>options = [], demanded = []\<rparr>) args")
     (simp_all add: main_def reject_def handler_echo_fields boot_def)

lemma alive_main: "alive (main e args)"
  using main_outcome[of e args] unfolding alive_def by (auto simp: main_delivered)

lemma awaiting_delivered:
  "echo_inv e s \<Longrightarrow> awaiting s tid = Some c \<Longrightarrow> tid < delivered s"
  by (cases "tid < delivered s") (auto simp: echo_inv_def)

lemma timers_delivered:
  "echo_inv e s \<Longrightarrow> timers s tid = Some tm \<Longrightarrow> tid < delivered s"
  by (cases "tid < delivered s") (auto simp: echo_inv_def)

lemma history_length:
  "echo_inv e s \<Longrightarrow> length (history k (trace s)) \<le> 8"
proof (cases "k < delivered s")
  case True
  assume "echo_inv e s"
  with True have "echo_phase e s k" by (simp add: echo_inv_def)
  then show ?thesis
    by (cases rule: echo_phase_cases) (simp_all add: received_def sent_def settled_def)
next
  case False
  assume "echo_inv e s"
  with False show ?thesis by (simp add: echo_inv_def)
qed

text \<open>
  C2. When the client rejects a pending transfer of the started process with \<open>err\<close>, the
  callback writes the settlement and one error line naming the sender and the message of
  \<open>err\<close>, and nothing else: the process has not failed and is still subscribed, the
  server is as before, no timer is added (nothing is retried), the call is no longer
  pending, and whatever happens later the history of that payment does not change and
  it keeps its single transfer.
\<close>

theorem echo_failure_swallowed:
  assumes aw: "awaiting (run e (main e args) ins) tid = Some c"
  shows "trace (step e (run e (main e args) ins) (Settle tid (Inl err))) =
           trace (run e (main e args) ins) @
             [(now (run e (main e args) ins), Echo (owner c), Settled (Inl err)),
              (now (run e (main e args) ins), Echo (owner c),
                 Log Err (''Failed to send payment back to '' @ sender (meta (c_data c)) @ '': '' @
                   message err))]
       \<and> failed (step e (run e (main e args) ins) (Settle tid (Inl err))) = None
       \<and> subscribed (step e (run e (main e args) ins) (Settle tid (Inl err)))
       \<and> server (step e (run e (main e args) ins) (Settle tid (Inl err))) =
           server (run e (main e args) ins)
       \<and> timers (step e (run e (main e args) ins) (Settle tid (Inl err))) =
           timers (run e (main e args) ins)
       \<and> awaiting (step e (run e (main e args) ins) (Settle tid (Inl err))) =
           (awaiting (run e (main e args) ins))(tid := None)
       \<and> (\<forall>ins'. history (owner c)
                    (trace (run e (step e (run e (main e args) ins) (Settle tid (Inl err))) ins')) =
                  history (owner c)
                    (trace (step e (run e (main e args) ins) (Settle tid (Inl err)))))
       \<and> (\<forall>ins'. length (transfers (owner c)
                    (run e (step e (run e (main e args) ins) (Settle tid (Inl err))) ins')) = 1)"
proof -
  define s where "s = run e (main e args) ins"
  define s' where "s' = step e s (Settle tid (Inl err))"
  from aw have aw': "awaiting s tid = Some c" by (simp add: s_def)
  have inv: "echo_inv e s" unfolding s_def by (intro echo_inv_run echo_inv_main)
  have al: "alive s" unfolding s_def by (intro alive_run alive_main)
  from inv aw' have lt: "tid < delivered s" by (rule awaiting_delivered)
  with al have live: "subscribed s" "failed s = None" by (auto simp: alive_def)
  from inv lt have "echo_phase e s tid" by (simp add: echo_inv_def)
  then obtain d t0 t1 where p: "t0 + 1000 \<le> t1" "t1 \<le> now s"
      "awaiting s tid = Some (closure_of e tid d)"
      "history tid (trace s) = received e d t0 @ sent e d t1"
    using aw' by (cases rule: echo_phase_cases) auto
  from p(3) aw' have c: "c = closure_of e tid d" by simp
  then have ow: "owner c = tid" by (simp add: closure_of_def)
  have eff: "s' = s\<lparr>trace := trace s @ map (\<lambda>(t, a). (t, Echo tid, a)) (settled e d (now s) (Inl err)),
       awaiting := (awaiting s)(tid := None)\<rparr>"
    unfolding s'_def using p(3) by (rule settle_effect)
  have tr: "trace s' = trace s @
      [(now s, Echo (owner c), Settled (Inl err)),
       (now s, Echo (owner c),
          Log Err (''Failed to send payment back to '' @ sender (meta (c_data c)) @ '': '' @
            message err))]"
    by (simp add: eff ow settled_def outcome_line_def c closure_of_def)
  have h': "history tid (trace s') = received e d t0 @ sent e d t1 @ settled e d (now s) (Inl err)"
    by (simp add: eff history_tagged p(4))
  have inv': "echo_inv e s'" unfolding s'_def using inv by (rule echo_inv_step)
  have fin: "history tid (trace (run e s' ins')) = history tid (trace s')" for ins'
  proof -
    from run_static[of e s' ins'] obtain tr' where x: "trace (run e s' ins') = trace s' @ tr'"
      by blast
    have "length (history tid (trace (run e s' ins'))) \<le> 8"
      using inv' by (intro history_length[of e] echo_inv_run)
    moreover have "length (history tid (trace s')) = 8"
      by (simp add: h' received_def sent_def settled_def)
    ultimately have "history tid tr' = []" by (simp add: x history_append)
    then show ?thesis by (simp add: x history_append)
  qed
  have one: "length (transfers tid (run e s' ins')) = 1" for ins'
  proof -
    have "transfers tid (run e s' ins') = transfers tid s'"
      by (simp add: transfers_def fin)
    also have "\<dots> = [(t1, echo_of d)]" using h' by (rule transfers_settled)
    finally show ?thesis by simp
  qed
  from tr live fin one show ?thesis
    unfolding s_def[symmetric] s'_def[symmetric] ow by (simp add: eff)
qed


theorem echo_failure_swallowed_witness:
  "awaiting (run demo_env (main demo_env demo_args) [Deliver (event_of payment_a), Advance 1000, Fire 0]) 0 =
     Some \<lparr>owner = 0, c_amount = 1000000000000000000, c_formattedAmount = ''1.0'',
           c_data = payment_a\<rparr>
   \<and> trace (run demo_env (main demo_env demo_args)
        [Deliver (event_of payment_a), Advance 1000, Fire 0, Settle 0 (Inl (Error ''no funds''))]) =
       trace (run demo_env (main demo_env demo_args) [Deliver (event_of payment_a), Advance 1000, Fire 0]) @
         [(1000, Echo 0, Settled (Inl (Error ''no funds''))),
          (1000, Echo 0, Log Err ''Failed to send payment back to 0xAAA: no funds'')]
   \<and> failed (run demo_env (main demo_env demo_args)
        [Deliver (event_of payment_a), Advance 1000, Fire 0, Settle 0 (Inl (Error ''no funds''))]) = None
   \<and> subscribed (run demo_env (main demo_env demo_args)
        [Deliver (event_of payment_a), Advance 1000, Fire 0, Settle 0 (Inl (Error ''no funds''))])
   \<and> (\<forall>later. length (transfers 0 (run demo_env
          (run demo_env (main demo_env demo_args)
             [Deliver (event_of payment_a), Advance 1000, Fire 0, Settle 0 (Inl (Error ''no funds''))])
          later)) = 1)"
proof -
  let ?s = "run demo_env (main demo_env demo_args) [Deliver (event_of payment_a), Advance 1000, Fire 0]"
  let ?c = "\<lparr>owner = 0, c_amount = 1000000000000000000, c_formattedAmount = ''1.0'',
           c_data = payment_a\<rparr>"
  have aw: "awaiting ?s 0 = Some ?c" by (simp add: eval_defs)
  have st: "run demo_env (main demo_env demo_args)
        [Deliver (event_of payment_a), Advance 1000, Fire 0, Settle 0 (Inl (Error ''no funds''))] =
      step demo_env ?s (Settle 0 (Inl (Error ''no funds'')))"
    by (simp add: run_def)
  have nw: "now ?s = 1000" by (simp add: eval_defs)
  note T = echo_failure_swallowed[OF aw, of "Error ''no funds''"]
  from T aw show ?thesis unfolding st nw by (simp add: payment_a_def)
qed

section \<open>Payments do not wait for each other\<close>

lemma timer_kept_step:
  assumes inv: "echo_inv e s" and tm: "timers s k = Some tm" and x: "x \<noteq> Fire k"
  shows "timers (step e s x) k = Some tm"
proof (cases x)
  case (Deliver d)
  from inv tm have "k < delivered s" by (rule timers_delivered)
  moreover from inv have "next_timer s = delivered s" by (simp add: echo_inv_def)
  ultimately have "timers (on_unlocked e d s) k = Some tm"
    using tm by (cases e d s rule: on_unlocked_cases) simp_all
  with tm Deliver show ?thesis by simp
next
  case (Fire j)
  with x have "j \<noteq> k" by simp
  with tm Fire show ?thesis
    by (simp add: echo_send_def transfer_def act_def Let_def split: option.splits)
next
  case (Settle j r)
  with tm show ?thesis
    by (simp add: echo_settle_def act_def split: option.splits sum.splits bignumberish.splits)
qed (use tm in \<open>simp_all add: dispatch_def act_def Let_def split: server_state.splits\<close>)

lemma timer_kept_run:
  "echo_inv e s \<Longrightarrow> timers s k = Some tm \<Longrightarrow> \<forall>x \<in> set ins. x \<noteq> Fire k \<Longrightarrow>
   timers (run e s ins) k = Some tm"
proof (induction ins arbitrary: s)
  case Nil
  then show ?case by (simp add: run_Nil)
next
  case (Cons x xs)
  from Cons.prems have "timers (step e s x) k = Some tm" by (intro timer_kept_step) simp_all
  moreover from Cons.prems have "echo_inv e (step e s x)" by (intro echo_inv_step)
  ultimately show ?case using Cons.prems by (simp add: run_Cons Cons.IH)
qed

lemma call_kept_step:
  assumes inv: "echo_inv e s" and aw: "awaiting s k = Some c" and x: "\<forall>r. x \<noteq> Settle k r"
  shows "awaiting (step e s x) k = Some c"
proof (cases x)
  case (Deliver d)
  have "awaiting (on_unlocked e d s) k = Some c"
    using aw by (cases e d s rule: on_unlocked_cases) simp_all
  with aw Deliver show ?thesis by simp
next
  case (Fire j)
  have "j \<noteq> k" if "timers s j \<noteq> None"
  proof
    assume "j = k"
    from inv aw have "k < delivered s" by (rule awaiting_delivered)
    with inv have "echo_phase e s k" by (simp add: echo_inv_def)
    then show False using aw that \<open>j = k\<close> by (cases rule: echo_phase_cases) auto
  qed
  with aw Fire show ?thesis
    by (auto simp: echo_send_def transfer_def act_def Let_def split: option.splits)
next
  case (Settle j r)
  with x have "j \<noteq> k" by auto
  with aw Settle show ?thesis
    by (simp add: echo_settle_def act_def split: option.splits sum.splits bignumberish.splits)
qed (use aw in \<open>simp_all add: dispatch_def act_def Let_def split: server_state.splits\<close>)

lemma call_kept_run:
  "echo_inv e s \<Longrightarrow> awaiting s k = Some c \<Longrightarrow> \<forall>x \<in> set ins. \<forall>r. x \<noteq> Settle k r \<Longrightarrow>
   awaiting (run e s ins) k = Some c"
proof (induction ins arbitrary: s)
  case Nil
  then show ?case by (simp add: run_Nil)
next
  case (Cons x xs)
  from Cons.prems have "awaiting (step e s x) k = Some c" by (intro call_kept_step) simp_all
  moreover from Cons.prems have "echo_inv e (step e s x)" by (intro echo_inv_step)
  ultimately show ?case using Cons.prems by (simp add: run_Cons Cons.IH)
qed

text \<open>
  C5. Whatever happens to the other payments (\<open>others\<close>: deliveries, timers of other
  payments firing in any order, their transfers settling or failing), a pending timer
  stays pending and, once due, firing it submits the transfer of its own payment; and a
  transfer in flight stays in flight and settling it writes its own outcome. Nothing
  orders two payments, excludes one while the other is in flight, or cancels one when
  the other fails.
\<close>

theorem echo_tasks_independent:
  "(\<forall>k tm. timers (run e (main e args) ins) k = Some tm \<and> (\<forall>x \<in> set others. x \<noteq> Fire k) \<longrightarrow>
      timers (run e (run e (main e args) ins) others) k = Some tm \<and>
      (due tm \<le> now (run e (run e (main e args) ins) others) \<longrightarrow>
         transfers k (step e (run e (run e (main e args) ins) others) (Fire k)) =
           [(now (run e (run e (main e args) ins) others),
             \<lparr>tx_amount = amount (c_data (callback tm)),
              recipient = sender (meta (c_data (callback tm))), assetId = AddressZero\<rparr>)]))
   \<and> (\<forall>k c. awaiting (run e (main e args) ins) k = Some c \<and>
         (\<forall>x \<in> set others. \<forall>r. x \<noteq> Settle k r) \<longrightarrow>
      awaiting (run e (run e (main e args) ins) others) k = Some c \<and>
      (\<forall>r. trace (step e (run e (run e (main e args) ins) others) (Settle k r)) =
         trace (run e (run e (main e args) ins) others) @
           [(now (run e (run e (main e args) ins) others), Echo k, Settled r),
            (now (run e (run e (main e args) ins) others), Echo k,
               outcome_line e (c_data c) r)]))"
proof -
  define s where "s = run e (main e args) ins"
  define u where "u = run e s others"
  have inv: "echo_inv e s" unfolding s_def by (intro echo_inv_run echo_inv_main)
  then have invu: "echo_inv e u" unfolding u_def by (rule echo_inv_run)
  have A: "timers u k = Some tm \<and>
      (due tm \<le> now u \<longrightarrow> transfers k (step e u (Fire k)) =
           [(now u, \<lparr>tx_amount = amount (c_data (callback tm)),
              recipient = sender (meta (c_data (callback tm))), assetId = AddressZero\<rparr>)])"
    if tm: "timers s k = Some tm" and o: "\<forall>x \<in> set others. x \<noteq> Fire k" for k tm
  proof -
    from inv tm o have kept: "timers u k = Some tm" unfolding u_def by (rule timer_kept_run)
    from invu kept have "k < delivered u" by (rule timers_delivered)
    with invu have "echo_phase e u k" by (simp add: echo_inv_def)
    then obtain d t0 where p: "timers u k = Some \<lparr>due = t0 + 1000, callback = closure_of e k d\<rparr>"
        "history k (trace u) = received e d t0"
      using kept by (cases rule: echo_phase_cases) auto
    from p(1) kept have tmeq: "tm = \<lparr>due = t0 + 1000, callback = closure_of e k d\<rparr>" by simp
    have "transfers k (step e u (Fire k)) = [(now u, echo_of d)]" if du: "due tm \<le> now u"
    proof -
      from du tmeq have du': "t0 + 1000 \<le> now u" by simp
      have "history k (trace (step e u (Fire k))) = received e d t0 @ sent e d (now u)"
        by (simp only: fire_effect[OF p(1) du']) (simp add: history_tagged p(2))
      then show ?thesis by (rule transfers_sent)
    qed
    with kept show ?thesis by (simp add: tmeq closure_of_def echo_of_def)
  qed
  have B: "awaiting u k = Some c \<and>
      (\<forall>r. trace (step e u (Settle k r)) =
         trace u @ [(now u, Echo k, Settled r), (now u, Echo k, outcome_line e (c_data c) r)])"
    if aw: "awaiting s k = Some c" and o: "\<forall>x \<in> set others. \<forall>r. x \<noteq> Settle k r" for k c
  proof -
    from inv aw o have kept: "awaiting u k = Some c" unfolding u_def by (rule call_kept_run)
    from invu kept have "k < delivered u" by (rule awaiting_delivered)
    with invu have "echo_phase e u k" by (simp add: echo_inv_def)
    then obtain d where p: "awaiting u k = Some (closure_of e k d)"
      using kept by (cases rule: echo_phase_cases) auto
    with kept have c: "c = closure_of e k d" by simp
    have "trace (step e u (Settle k r)) =
         trace u @ [(now u, Echo k, Settled r), (now u, Echo k, outcome_line e (c_data c) r)]" for r
      by (simp only: settle_effect[OF p]) (simp add: settled_def c closure_of_def)
    with kept show ?thesis by simp
  qed
  from A B show ?thesis unfolding u_def[symmetric] s_def[symmetric]
    unfolding u_def[symmetric] by blast
qed


theorem echo_tasks_independent_witness:
  "timers (run demo_env (main demo_env demo_args) [Deliver (event_of payment_a), Deliver (event_of payment_b), Advance 1000]) 1 =
     Some \<lparr>due = 1000, callback = \<lparr>owner = 1, c_amount = 0, c_formattedAmount = ''0.0'',
                                   c_data = payment_b\<rparr>\<rparr>
   \<and> Fire 1 \<notin> set [Fire 0, Settle 0 (Inl (Error ''no funds''))]
   \<and> transfers 1 (run demo_env (main demo_env demo_args)
        [Deliver (event_of payment_a), Deliver (event_of payment_b), Advance 1000,
         Fire 0, Settle 0 (Inl (Error ''no funds'')), Fire 1]) =
       [(1000, \<lparr>tx_amount = 0, recipient = ''0xBBB'', assetId = AddressZero\<rparr>)]
   \<and> awaiting (run demo_env (main demo_env demo_args)
        [Deliver (event_of payment_a), Deliver (event_of payment_b), Advance 1000, Fire 1, Fire 0]) 1 =
       Some \<lparr>owner = 1, c_amount = 0, c_formattedAmount = ''0.0'', c_data = payment_b\<rparr>
   \<and> awaiting (run demo_env (main demo_env demo_args)
        [Deliver (event_of payment_a), Deliver (event_of payment_b), Advance 1000, Fire 1, Fire 0]) 0 \<noteq> None
   \<and> trace (run demo_env (main demo_env demo_args)
        [Deliver (event_of payment_a), Deliver (event_of payment_b), Advance 1000, Fire 1, Fire 0,
         Settle 0 (Inl (Error ''no funds'')), Settle 1 (Inr \<lparr>response_paymentId = ''0x77''\<rparr>)]) =
       trace (run demo_env (main demo_env demo_args)
        [Deliver (event_of payment_a), Deliver (event_of payment_b), Advance 1000, Fire 1, Fire 0,
         Settle 0 (Inl (Error ''no funds''))]) @
       [(1000, Echo 1, Settled (Inr \<lparr>response_paymentId = ''0x77''\<rparr>)),
        (1000, Echo 1, Log Info ''0.0 ETH sent back to 0xBBB via payment 0x77'')]"
proof -
  let ?m = "main demo_env demo_args"
  let ?s = "run demo_env ?m [Deliver (event_of payment_a), Deliver (event_of payment_b), Advance 1000]"
  let ?tm = "\<lparr>due = 1000, callback = \<lparr>owner = 1, c_amount = 0, c_formattedAmount = ''0.0'',
                                   c_data = payment_b\<rparr>\<rparr>"
  let ?o = "[Fire 0, Settle 0 (Inl (Error ''no funds''))]"
  have tm: "timers ?s 1 = Some ?tm" by (simp add: eval_defs)
  have o: "\<forall>x \<in> set ?o. x \<noteq> Fire 1" by simp
  note A = echo_tasks_independent[of demo_env demo_args
      "[Deliver (event_of payment_a), Deliver (event_of payment_b), Advance 1000]" ?o, THEN conjunct1, rule_format,
      OF conjI[OF tm o]]
  have nw: "now (run demo_env ?s ?o) = 1000" by (simp add: eval_defs)
  have r1: "run demo_env ?m [Deliver (event_of payment_a), Deliver (event_of payment_b), Advance 1000,
         Fire 0, Settle 0 (Inl (Error ''no funds'')), Fire 1] = step demo_env (run demo_env ?s ?o) (Fire 1)"
    by (simp add: run_def)
  from A nw have 1: "transfers 1 (step demo_env (run demo_env ?s ?o) (Fire 1)) =
       [(1000, \<lparr>tx_amount = 0, recipient = ''0xBBB'', assetId = AddressZero\<rparr>)]"
    by (simp add: payment_b_def del: step.simps)
  let ?s2 = "run demo_env ?m [Deliver (event_of payment_a), Deliver (event_of payment_b), Advance 1000, Fire 1, Fire 0]"
  let ?c = "\<lparr>owner = 1, c_amount = 0, c_formattedAmount = ''0.0'', c_data = payment_b\<rparr>"
  let ?o2 = "[Settle 0 (Inl (Error ''no funds''))]"
  have aw: "awaiting ?s2 1 = Some ?c" and aw0: "awaiting ?s2 0 \<noteq> None" by (simp_all add: eval_defs)
  have o2: "\<forall>x \<in> set ?o2. \<forall>r. x \<noteq> Settle 1 r" by simp
  note B = echo_tasks_independent[of demo_env demo_args
      "[Deliver (event_of payment_a), Deliver (event_of payment_b), Advance 1000, Fire 1, Fire 0]" ?o2,
      THEN conjunct2, rule_format, OF conjI[OF aw o2]]
  have nw2: "now (run demo_env ?s2 ?o2) = 1000" by (simp add: eval_defs)
  have r2: "run demo_env ?m [Deliver (event_of payment_a), Deliver (event_of payment_b), Advance 1000, Fire 1, Fire 0,
         Settle 0 (Inl (Error ''no funds'')), Settle 1 (Inr \<lparr>response_paymentId = ''0x77''\<rparr>)] =
       step demo_env (run demo_env ?s2 ?o2) (Settle 1 (Inr \<lparr>response_paymentId = ''0x77''\<rparr>))"
    and r3: "run demo_env ?m [Deliver (event_of payment_a), Deliver (event_of payment_b), Advance 1000, Fire 1, Fire 0,
         Settle 0 (Inl (Error ''no funds''))] = run demo_env ?s2 ?o2"
    by (simp_all add: run_def)
  from B have 2: "trace (step demo_env (run demo_env ?s2 ?o2)
            (Settle 1 (Inr \<lparr>response_paymentId = ''0x77''\<rparr>))) =
       trace (run demo_env ?s2 ?o2) @
       [(1000, Echo 1, Settled (Inr \<lparr>response_paymentId = ''0x77''\<rparr>)),
        (1000, Echo 1, Log Info ''0.0 ETH sent back to 0xBBB via payment 0x77'')]"
    unfolding nw2 by (simp add: outcome_line_def payment_b_def demo_env_def del: step.simps)
  from tm 1 aw aw0 2 show ?thesis unfolding r1 r2 r3 by simp
qed

section \<open>The status server\<close>

lemma app_ok_step: "app_ok s \<Longrightarrow> app_ok (step e s x)"
  unfolding app_ok_def
  by (cases x)
     (auto simp: on_unlocked_def raised_def toBN_def Let_def act_def setTimeout_def echo_send_def transfer_def
        echo_settle_def dispatch_def split: option.splits sum.splits server_state.splits bignumberish.splits)

lemma app_ok_run: "app_ok s \<Longrightarrow> app_ok (run e s ins)"
  unfolding run_def by (induction ins arbitrary: s) (simp_all add: app_ok_step)

lemma app_ok_main: "app_ok (main e args)"
  using main_outcome[of e args] unfolding app_ok_def by auto

lemma listening_step: "server s = Listening app p \<Longrightarrow> server (step e s x) = Listening app p"
  by (cases x)
     (auto simp: on_unlocked_def raised_def toBN_def Let_def act_def setTimeout_def echo_send_def transfer_def
        echo_settle_def dispatch_def split: option.splits sum.splits server_state.splits bignumberish.splits)

lemma listening_run: "server s = Listening app p \<Longrightarrow> server (run e s ins) = Listening app p"
  unfolding run_def by (induction ins arbitrary: s) (simp_all add: listening_step)

text \<open>
  C6. Once the server of the started process listens, it listens for ever after, and in
  whatever state the process is later, a \<^verbatim>\<open>GET /\<close> request is answered with status
  200 and the body \<^verbatim>\<open>Ready to roll!\<close> (and logged by morgan).
\<close>

theorem status_route_ready:
  assumes "server (run e (main e args) ins) = Listening app p"
  shows "server (run e (run e (main e args) ins) later) = Listening app p
       \<and> trace (step e (run e (run e (main e args) ins) later) (Http ''GET'' ''/'')) =
           trace (run e (run e (main e args) ins) later) @
             [(now (run e (run e (main e args) ins) later), Server, Request ''GET'' ''/''),
              (now (run e (run e (main e args) ins) later), Server,
                 Respond \<lparr>status = 200, body = ''Ready to roll!''\<rparr>),
              (now (run e (run e (main e args) ins) later), Server,
                 ServerLog Debug
                   (morgan_tiny e ''GET'' ''/'' \<lparr>status = 200, body = ''Ready to roll!''\<rparr>))]"
proof -
  define u where "u = run e (run e (main e args) ins) later"
  from assms have l: "server u = Listening app p" unfolding u_def by (rule listening_run)
  have "app_ok u" unfolding u_def by (intro app_ok_run app_ok_main)
  with l have app: "app = \<lparr>morgan = True, routes = [(''GET'', ''/'')]\<rparr>"
    by (simp add: app_ok_def)
  have "trace (step e u (Http ''GET'' ''/'')) =
           trace u @
             [(now u, Server, Request ''GET'' ''/''),
              (now u, Server, Respond \<lparr>status = 200, body = ''Ready to roll!''\<rparr>),
              (now u, Server, ServerLog Debug
                   (morgan_tiny e ''GET'' ''/'' \<lparr>status = 200, body = ''Ready to roll!''\<rparr>))]"
    by (simp add: l app dispatch_def Let_def act_def root_handler_def)
  with l show ?thesis unfolding u_def[symmetric] by simp
qed

theorem status_route_ready_witness:
  "server (run demo_env (main demo_env demo_args)
      [Bound, Deliver (event_of payment_a), Advance 1000, Fire 0, Settle 0 (Inl (Error ''no funds''))]) =
     Listening \<lparr>morgan = True, routes = [(''GET'', ''/'')]\<rparr> (Some (Num 7600))
   \<and> trace (run demo_env (main demo_env demo_args)
      [Bound, Deliver (event_of payment_a), Advance 1000, Fire 0, Settle 0 (Inl (Error ''no funds'')),
       Deliver (event_of payment_b), Http ''GET'' ''/'']) =
     trace (run demo_env (main demo_env demo_args)
      [Bound, Deliver (event_of payment_a), Advance 1000, Fire 0, Settle 0 (Inl (Error ''no funds'')),
       Deliver (event_of payment_b)]) @
     [(1000, Server, Request ''GET'' ''/''),
      (1000, Server, Respond \<lparr>status = 200, body = ''Ready to roll!''\<rparr>),
      (1000, Server, ServerLog Debug ''GET /'')]"
proof -
  let ?ins = "[Bound, Deliver (event_of payment_a), Advance 1000, Fire 0, Settle 0 (Inl (Error ''no funds''))]"
  let ?m = "main demo_env demo_args"
  have l: "server (run demo_env ?m ?ins) =
     Listening \<lparr>morgan = True, routes = [(''GET'', ''/'')]\<rparr> (Some (Num 7600))"
    by (simp add: eval_defs)
  note T = status_route_ready[OF l, of "[Deliver (event_of payment_b)]"]
  have nw: "now (run demo_env (run demo_env ?m ?ins) [Deliver (event_of payment_b)]) = 1000"
    by (simp add: eval_defs)
  have r1: "run demo_env ?m [Bound, Deliver (event_of payment_a), Advance 1000, Fire 0,
       Settle 0 (Inl (Error ''no funds'')), Deliver (event_of payment_b), Http ''GET'' ''/''] =
     step demo_env (run demo_env (run demo_env ?m ?ins) [Deliver (event_of payment_b)]) (Http ''GET'' ''/'')"
    and r2: "run demo_env ?m [Bound, Deliver (event_of payment_a), Advance 1000, Fire 0,
       Settle 0 (Inl (Error ''no funds'')), Deliver (event_of payment_b)] =
     run demo_env (run demo_env ?m ?ins) [Deliver (event_of payment_b)]"
    by (simp_all add: run_def)
  have mt: "morgan_tiny demo_env ''GET'' ''/'' r = ''GET /''" for r
    by (simp add: demo_env_def)
  from T[unfolded nw mt] l show ?thesis unfolding r1 r2 by blast
qed

lemma guarded_append_subscribed:
  "guarded xs \<Longrightarrow> On CONDITIONAL_TRANSFER_UNLOCKED_EVENT \<in> set xs \<Longrightarrow> guarded (xs @ ys)"
  by (induction xs) auto

lemma guarded_append_quiet:
  "guarded xs \<Longrightarrow> \<forall>a \<in> set ys. \<not> serves a \<Longrightarrow> guarded (xs @ ys)"
proof (induction xs)
  case Nil
  then show ?case by (induction ys) auto
next
  case (Cons a xs)
  then show ?case by auto
qed

lemma guarded_nth:
  "guarded xs \<Longrightarrow> i < length xs \<Longrightarrow> serves (xs ! i) \<Longrightarrow>
   \<exists>j<i. xs ! j = On CONDITIONAL_TRANSFER_UNLOCKED_EVENT"
proof (induction xs arbitrary: i)
  case Nil
  then show ?case by simp
next
  case (Cons a xs)
  show ?case
  proof (cases "a = On CONDITIONAL_TRANSFER_UNLOCKED_EVENT")
    case True
    with Cons.prems have "i \<noteq> 0" by (cases i) auto
    with True show ?thesis by (intro exI[of _ 0]) simp
  next
    case False
    with Cons.prems have g: "guarded xs" and na: "\<not> serves a" by auto
    with Cons.prems obtain i' where i': "i = Suc i'" by (cases i) auto
    with Cons.prems g have "\<exists>j<i'. xs ! j = On CONDITIONAL_TRANSFER_UNLOCKED_EVENT"
      by (intro Cons.IH) auto
    then obtain j where "j < i'" "xs ! j = On CONDITIONAL_TRANSFER_UNLOCKED_EVENT" by blast
    then show ?thesis using i' by (intro exI[of _ "Suc j"]) simp
  qed
qed

lemma served_after_subscription_step:
  assumes "served_after_subscription s"
  shows "served_after_subscription (step e s x)"
proof (cases "server s = NoServer")
  case True
  have "server (step e s x) = NoServer \<and> (\<exists>ys. actions (step e s x) = actions s @ ys \<and>
          (\<forall>a \<in> set ys. \<not> serves a))"
    using True
    by (cases x)
       (auto simp: on_unlocked_def raised_def toBN_def Let_def act_def setTimeout_def echo_send_def transfer_def
          echo_settle_def actions_def split: option.splits sum.splits bignumberish.splits)
  with assms show ?thesis
    by (auto simp: served_after_subscription_def guarded_append_quiet)
next
  case False
  have "server (step e s x) \<noteq> NoServer \<and> subscribed (step e s x) = subscribed s \<and>
        (\<exists>ys. actions (step e s x) = actions s @ ys)"
    using False
    by (cases x)
       (auto simp: on_unlocked_def raised_def toBN_def Let_def act_def setTimeout_def echo_send_def transfer_def
          echo_settle_def dispatch_def actions_def
          split: option.splits sum.splits server_state.splits bignumberish.splits)
  with assms False show ?thesis
    by (auto simp: served_after_subscription_def guarded_append_subscribed)
qed

lemma served_after_subscription_run:
  "served_after_subscription s \<Longrightarrow> served_after_subscription (run e s ins)"
  unfolding run_def by (induction ins arbitrary: s) (simp_all add: served_after_subscription_step)

lemma served_after_subscription_main: "served_after_subscription (main e args)"
  unfolding served_after_subscription_def
  by (auto simp: main_def boot_def reject_def handler_def Let_def act_def actions_def
        split: sum.splits option.splits)

text \<open>
  C9. In every run, a call of \<^verbatim>\<open>listen\<close>, a request taken by the server and a
  response it gives are preceded in the trace by the registration of the payment
  handler; and a process that has a server is subscribed.
\<close>

theorem subscribed_before_listening:
  "(\<forall>i < length (actions (run e (main e args) ins)).
      ((\<exists>p. actions (run e (main e args) ins) ! i = Listen p) \<or>
       (\<exists>m p. actions (run e (main e args) ins) ! i = Request m p) \<or>
       (\<exists>r. actions (run e (main e args) ins) ! i = Respond r)) \<longrightarrow>
      (\<exists>j < i. actions (run e (main e args) ins) ! j = On CONDITIONAL_TRANSFER_UNLOCKED_EVENT))
   \<and> (server (run e (main e args) ins) \<noteq> NoServer \<longrightarrow> subscribed (run e (main e args) ins))"
proof -
  define s where "s = run e (main e args) ins"
  have sas: "served_after_subscription s"
    unfolding s_def by (intro served_after_subscription_run served_after_subscription_main)
  then have g: "guarded (actions s)" by (simp add: served_after_subscription_def)
  have "\<exists>j < i. actions s ! j = On CONDITIONAL_TRANSFER_UNLOCKED_EVENT"
    if "i < length (actions s)" and
      "(\<exists>p. actions s ! i = Listen p) \<or> (\<exists>m p. actions s ! i = Request m p) \<or>
       (\<exists>r. actions s ! i = Respond r)" for i
  proof -
    from that(2) have "serves (actions s ! i)" by auto
    with g that(1) show ?thesis by (rule guarded_nth)
  qed
  moreover from sas have "server s \<noteq> NoServer \<longrightarrow> subscribed s"
    by (simp add: served_after_subscription_def)
  ultimately show ?thesis unfolding s_def[symmetric] by blast
qed


theorem subscribed_before_listening_witness:
  "17 < length (actions (run demo_env (main demo_env demo_args) [Bound, Http ''GET'' ''/'']))
   \<and> actions (run demo_env (main demo_env demo_args) [Bound, Http ''GET'' ''/'']) ! 17 =
       Listen (Some (Num 7600))
   \<and> (\<exists>j < 17. actions (run demo_env (main demo_env demo_args) [Bound, Http ''GET'' ''/'']) ! j =
         On CONDITIONAL_TRANSFER_UNLOCKED_EVENT)
   \<and> actions (run demo_env (main demo_env demo_args) [Bound, Http ''GET'' ''/'']) ! 20 =
       Respond \<lparr>status = 200, body = ''Ready to roll!''\<rparr>
   \<and> (\<exists>j < 20. actions (run demo_env (main demo_env demo_args) [Bound, Http ''GET'' ''/'']) ! j =
         On CONDITIONAL_TRANSFER_UNLOCKED_EVENT)
   \<and> server (run demo_env (main demo_env demo_args) [Bound, Http ''GET'' ''/'']) \<noteq> NoServer
   \<and> subscribed (run demo_env (main demo_env demo_args) [Bound, Http ''GET'' ''/''])"
proof -
  let ?s = "run demo_env (main demo_env demo_args) [Bound, Http ''GET'' ''/'']"
  have len: "length (actions ?s) = 22" by (simp add: eval_defs)
  have a17: "actions ?s ! 17 = Listen (Some (Num 7600))"
    and a20: "actions ?s ! 20 = Respond \<lparr>status = 200, body = ''Ready to roll!''\<rparr>"
    and sv: "server ?s \<noteq> NoServer"
    by (simp_all add: eval_defs)
  note T = subscribed_before_listening[of demo_env demo_args "[Bound, Http ''GET'' ''/'']"]
  have l17: "17 < length (actions ?s)" and l20: "20 < length (actions ?s)"
    using len by simp_all
  have s17: "(\<exists>p. actions ?s ! 17 = Listen p) \<or> (\<exists>m p. actions ?s ! 17 = Request m p) \<or>
       (\<exists>r. actions ?s ! 17 = Respond r)"
    using a17 by simp
  have s20: "(\<exists>p. actions ?s ! 20 = Listen p) \<or> (\<exists>m p. actions ?s ! 20 = Request m p) \<or>
       (\<exists>r. actions ?s ! 20 = Respond r)"
    using a20 by simp
  note 1 = T[THEN conjunct1, rule_format, OF l17 s17]
  note 2 = T[THEN conjunct1, rule_format, OF l20 s20]
  note 3 = T[THEN conjunct2, rule_format, OF sv]
  from len a17 a20 sv 1 2 3 show ?thesis by simp
qed

section \<open>Startup\<close>

lemma idle_step:
  "idle s \<Longrightarrow> idle (step e s x) \<and> trace (step e s x) = trace s \<and> failed (step e s x) = failed s"
  by (cases x) (simp_all add: idle_def)

lemma idle_run:
  "idle s \<Longrightarrow> trace (run e s ins) = trace s \<and> failed (run e s ins) = failed s"
proof (induction ins arbitrary: s)
  case Nil
  show ?case by (simp add: run_Nil)
next
  case (Cons x xs)
  from idle_step[OF Cons.prems, of e x] Cons.IH[of "step e s x"] show ?case
    by (simp add: run_Cons)
qed

lemma handler_connect_fails:
  "connect e (database_options a) = Inl err \<Longrightarrow>
   handler e a boot = boot
     \<lparr>trace := [(0, Startup, Log Info ''Starting up''),
                (0, Startup, Log Info ''Connect to database''),
                (0, Startup, DbConnect (database_options a))],
      failed := Some err\<rparr>"
  by (simp add: handler_def Let_def act_def reject_def boot_def)

lemma handler_channel_fails:
  "connect e (database_options a) = Inr db \<Longrightarrow>
   createStateChannel e (channel_options a db) = Inl err \<Longrightarrow>
   handler e a boot = boot
     \<lparr>trace := [(0, Startup, Log Info ''Starting up''),
                (0, Startup, Log Info ''Connect to database''),
                (0, Startup, DbConnect (database_options a)),
                (0, Startup, Log Info ''Connected to database''),
                (0, Startup, Log Info ''Create state channel''),
                (0, Startup, CreateStateChannel (channel_options a db))],
      failed := Some err\<rparr>"
  by (simp add: handler_def Let_def act_def reject_def boot_def)

lemma handler_balance_fails:
  "connect e (database_options a) = Inr db \<Longrightarrow>
   createStateChannel e (channel_options a db) = Inr client \<Longrightarrow>
   getFreeBalance e client AddressZero = Inl err \<or>
   (\<exists>fb. getFreeBalance e client AddressZero = Inr fb \<and> fb (freeBalanceAddress client) = None \<and>
      err = formatEther_undefined e) \<Longrightarrow>
   handler e a boot = boot
     \<lparr>trace := [(0, Startup, Log Info ''Starting up''),
                (0, Startup, Log Info ''Connect to database''),
                (0, Startup, DbConnect (database_options a)),
                (0, Startup, Log Info ''Connected to database''),
                (0, Startup, Log Info ''Create state channel''),
                (0, Startup, CreateStateChannel (channel_options a db)),
                (0, Startup, Log Info ''Created state channel''),
                (0, Startup, GetFreeBalance AddressZero)],
      failed := Some err\<rparr>"
  by (auto simp: handler_def Let_def act_def reject_def boot_def)

lemma handler_succeeds:
  "connect e (database_options a) = Inr db \<Longrightarrow>
   createStateChannel e (channel_options a db) = Inr client \<Longrightarrow>
   getFreeBalance e client AddressZero = Inr fb \<Longrightarrow> fb (freeBalanceAddress client) = Some b \<Longrightarrow>
   handler e a boot = boot
     \<lparr>trace := [(0, Startup, Log Info ''Starting up''),
                (0, Startup, Log Info ''Connect to database''),
                (0, Startup, DbConnect (database_options a)),
                (0, Startup, Log Info ''Connected to database''),
                (0, Startup, Log Info ''Create state channel''),
                (0, Startup, CreateStateChannel (channel_options a db)),
                (0, Startup, Log Info ''Created state channel''),
                (0, Startup, GetFreeBalance AddressZero),
                (0, Startup, Log Info (''Channel free balance: '' @ formatEther e b)),
                (0, Startup, Log Info (''Signer address: '' @ freeBalanceAddress client)),
                (0, Startup, Log Info (''Free balance address: '' @ freeBalanceAddress client)),
                (0, Startup, Log Info (''xpub: '' @ publicIdentifier client)),
                (0, Startup, On CONDITIONAL_TRANSFER_UNLOCKED_EVENT),
                (0, Startup, Log Info ''Waiting to receive payments...''),
                (0, Server, ServerLog Info (''Start at port '' @ String e (port a))),
                (0, Server, Use_morgan),
                (0, Server, Route ''GET'' ''/''),
                (0, Server, Listen (port a))],
      subscribed := True,
      server := Starting \<lparr>morgan = True, routes = [(''GET'', ''/'')]\<rparr> (port a)\<rparr>"
  by (simp add: handler_def Let_def act_def reject_def boot_def)

text \<open>
  C3. Startup connects to the database, then creates the state channel from the
  connection it got, then registers the handler and starts the server, in this order
  (the third part gives the whole trace of a startup that succeeds). When the database
  connection is rejected, the process has failed with that error and its trace ends with
  the connection attempt, whatever happens later: no state channel is created, nothing is
  registered and no server is started. When the creation of the state channel is
  rejected, the trace ends with that attempt: the client is never used and no server is
  started.
\<close>

theorem startup_fail_fast:
  assumes "parse (builder \<lparr>options = [], demanded = []\<rparr>) args = Inr a"
  shows "(\<forall>err. connect e (database_options a) = Inl err \<longrightarrow>
            failed (run e (main e args) ins) = Some err \<and>
            actions (run e (main e args) ins) =
              [Log Info ''Starting up'', Log Info ''Connect to database'',
               DbConnect (database_options a)])
       \<and> (\<forall>db err. connect e (database_options a) = Inr db \<and>
              createStateChannel e (channel_options a db) = Inl err \<longrightarrow>
            failed (run e (main e args) ins) = Some err \<and>
            actions (run e (main e args) ins) =
              [Log Info ''Starting up'', Log Info ''Connect to database'',
               DbConnect (database_options a), Log Info ''Connected to database'',
               Log Info ''Create state channel'', CreateStateChannel (channel_options a db)])
       \<and> (\<forall>db client fb b. connect e (database_options a) = Inr db \<and>
              createStateChannel e (channel_options a db) = Inr client \<and>
              getFreeBalance e client AddressZero = Inr fb \<and>
              fb (freeBalanceAddress client) = Some b \<longrightarrow>
            failed (main e args) = None \<and>
            actions (main e args) =
              [Log Info ''Starting up'', Log Info ''Connect to database'',
               DbConnect (database_options a), Log Info ''Connected to database'',
               Log Info ''Create state channel'', CreateStateChannel (channel_options a db),
               Log Info ''Created state channel'', GetFreeBalance AddressZero,
               Log Info (''Channel free balance: '' @ formatEther e b),
               Log Info (''Signer address: '' @ freeBalanceAddress client),
               Log Info (''Free balance address: '' @ freeBalanceAddress client),
               Log Info (''xpub: '' @ publicIdentifier client),
               On CONDITIONAL_TRANSFER_UNLOCKED_EVENT,
               Log Info ''Waiting to receive payments...'',
               ServerLog Info (''Start at port '' @ String e (port a)),
               Use_morgan, Route ''GET'' ''/'', Listen (port a)])"
proof -
  from assms have m: "main e args = handler e a boot" by (simp add: main_def)
  have 1: "failed (run e (main e args) ins) = Some err \<and>
            actions (run e (main e args) ins) =
              [Log Info ''Starting up'', Log Info ''Connect to database'',
               DbConnect (database_options a)]"
    if c: "connect e (database_options a) = Inl err" for err
  proof -
    note h = handler_connect_fails[OF c]
    have "idle (main e args)" unfolding m h by (simp add: idle_def boot_def)
    from idle_run[OF this, of e ins] show ?thesis
      unfolding actions_def m h by (simp add: boot_def)
  qed
  have 2: "failed (run e (main e args) ins) = Some err \<and>
            actions (run e (main e args) ins) =
              [Log Info ''Starting up'', Log Info ''Connect to database'',
               DbConnect (database_options a), Log Info ''Connected to database'',
               Log Info ''Create state channel'', CreateStateChannel (channel_options a db)]"
    if c: "connect e (database_options a) = Inr db"
      and d: "createStateChannel e (channel_options a db) = Inl err" for db err
  proof -
    note h = handler_channel_fails[OF c d]
    have "idle (main e args)" unfolding m h by (simp add: idle_def boot_def)
    from idle_run[OF this, of e ins] show ?thesis
      unfolding actions_def m h by (simp add: boot_def)
  qed
  have 3: "failed (main e args) = None \<and>
            actions (main e args) =
              [Log Info ''Starting up'', Log Info ''Connect to database'',
               DbConnect (database_options a), Log Info ''Connected to database'',
               Log Info ''Create state channel'', CreateStateChannel (channel_options a db),
               Log Info ''Created state channel'', GetFreeBalance AddressZero,
               Log Info (''Channel free balance: '' @ formatEther e b),
               Log Info (''Signer address: '' @ freeBalanceAddress client),
               Log Info (''Free balance address: '' @ freeBalanceAddress client),
               Log Info (''xpub: '' @ publicIdentifier client),
               On CONDITIONAL_TRANSFER_UNLOCKED_EVENT,
               Log Info ''Waiting to receive payments...'',
               ServerLog Info (''Start at port '' @ String e (port a)),
               Use_morgan, Route ''GET'' ''/'', Listen (port a)]"
    if "connect e (database_options a) = Inr db"
      "createStateChannel e (channel_options a db) = Inr client"
      "getFreeBalance e client AddressZero = Inr fb"
      "fb (freeBalanceAddress client) = Some b" for db client fb b
    unfolding actions_def m handler_succeeds[OF that] by (simp add: boot_def)
  from 1 2 3 show ?thesis by blast
qed


theorem startup_fail_fast_witness:
  "parse (builder \<lparr>options = [], demanded = []\<rparr>) demo_args = Inr demo_argv
   \<and> connect db_down_env (database_options demo_argv) = Inl (Error ''connection refused'')
   \<and> failed (run db_down_env (main db_down_env demo_args)
        [Deliver (event_of payment_a), Advance 1000, Fire 0, Bound, Http ''GET'' ''/'']) =
       Some (Error ''connection refused'')
   \<and> actions (run db_down_env (main db_down_env demo_args)
        [Deliver (event_of payment_a), Advance 1000, Fire 0, Bound, Http ''GET'' ''/'']) =
       [Log Info ''Starting up'', Log Info ''Connect to database'',
        DbConnect (database_options demo_argv)]
   \<and> connect channel_down_env (database_options demo_argv) = Inr (Sequelize ''indexer'')
   \<and> createStateChannel channel_down_env (channel_options demo_argv (Sequelize ''indexer'')) =
       Inl (Error ''node unreachable'')
   \<and> failed (run channel_down_env (main channel_down_env demo_args)
        [Deliver (event_of payment_a), Advance 1000, Fire 0, Bound, Http ''GET'' ''/'']) =
       Some (Error ''node unreachable'')
   \<and> actions (run channel_down_env (main channel_down_env demo_args)
        [Deliver (event_of payment_a), Advance 1000, Fire 0, Bound, Http ''GET'' ''/'']) =
       [Log Info ''Starting up'', Log Info ''Connect to database'',
        DbConnect (database_options demo_argv), Log Info ''Connected to database'',
        Log Info ''Create state channel'',
        CreateStateChannel (channel_options demo_argv (Sequelize ''indexer''))]
   \<and> failed (main demo_env demo_args) = None
   \<and> actions (main demo_env demo_args) =
       [Log Info ''Starting up'', Log Info ''Connect to database'',
        DbConnect (database_options demo_argv), Log Info ''Connected to database'',
        Log Info ''Create state channel'',
        CreateStateChannel (channel_options demo_argv (Sequelize ''indexer'')),
        Log Info ''Created state channel'', GetFreeBalance AddressZero,
        Log Info ''Channel free balance: 0.0'', Log Info ''Signer address: 0xF1'',
        Log Info ''Free balance address: 0xF1'', Log Info ''xpub: xpub1'',
        On CONDITIONAL_TRANSFER_UNLOCKED_EVENT, Log Info ''Waiting to receive payments...'',
        ServerLog Info ''Start at port 7600'', Use_morgan, Route ''GET'' ''/'',
        Listen (Some (Num 7600))]"
proof -
  let ?ins = "[Deliver (event_of payment_a), Advance 1000, Fire 0, Bound, Http ''GET'' ''/'']"
  have c1: "connect db_down_env (database_options demo_argv) = Inl (Error ''connection refused'')"
    by (simp add: db_down_env_def)
  have c2: "connect channel_down_env (database_options demo_argv) = Inr (Sequelize ''indexer'')"
    "createStateChannel channel_down_env (channel_options demo_argv (Sequelize ''indexer'')) =
       Inl (Error ''node unreachable'')"
    by (simp_all add: channel_down_env_def demo_env_def)
  have c3: "connect demo_env (database_options demo_argv) = Inr (Sequelize ''indexer'')"
    "createStateChannel demo_env (channel_options demo_argv (Sequelize ''indexer'')) = Inr demo_client"
    "getFreeBalance demo_env demo_client AddressZero = Inr [''0xF1'' \<mapsto> 0]"
    "[''0xF1'' \<mapsto> (0::int)] (freeBalanceAddress demo_client) = Some 0"
    by (simp_all add: demo_env_def demo_client_def)
  note A = startup_fail_fast[OF demo_parse, of db_down_env ?ins, THEN conjunct1, rule_format, OF c1]
  note B = startup_fail_fast[OF demo_parse, of channel_down_env ?ins, THEN conjunct2,
      THEN conjunct1, rule_format, OF conjI[OF c2]]
  note C = startup_fail_fast[OF demo_parse, of demo_env "[]", THEN conjunct2, THEN conjunct2,
      rule_format, OF conjI[OF c3(1) conjI[OF c3(2) conjI[OF c3(3) c3(4)]]]]
  have ev: "formatEther demo_env 0 = ''0.0''" "freeBalanceAddress demo_client = ''0xF1''"
    "publicIdentifier demo_client = ''xpub1''" "String demo_env (port demo_argv) = ''7600''"
    "port demo_argv = Some (Num 7600)" "String demo_env (Some (Num 7600)) = ''7600''"
    by (simp_all add: demo_env_def demo_client_def demo_argv_def)
  from demo_parse c1 c2 A B C[unfolded ev] show ?thesis by simp
qed

lemma step_queries:
  "filter is_balance_query (actions (step e s x)) = filter is_balance_query (actions s)"
  by (cases x)
     (auto simp: on_unlocked_def raised_def toBN_def Let_def act_def setTimeout_def echo_send_def transfer_def
        echo_settle_def dispatch_def actions_def split: option.splits sum.splits server_state.splits bignumberish.splits)

lemma run_queries:
  "filter is_balance_query (actions (run e s ins)) = filter is_balance_query (actions s)"
  unfolding run_def by (induction ins arbitrary: s) (simp_all add: step_queries)

lemma step_env:
  "step (e\<lparr>getFreeBalance := g\<rparr>) s x = step e s x"
  by (cases x)
     (simp_all add: on_unlocked_def raised_def toBN_def Let_def dispatch_def
        split: option.splits server_state.splits bignumberish.splits)

lemma run_env: "run (e\<lparr>getFreeBalance := g\<rparr>) s ins = run e s ins"
  unfolding run_def by (induction ins arbitrary: s) (simp_all add: step_env)

lemma step_trace_update:
  "i < length (trace s) \<Longrightarrow>
   step e (s\<lparr>trace := (trace s)[i := v]\<rparr>) x =
     (step e s x)\<lparr>trace := (trace (step e s x))[i := v]\<rparr>"
  by (cases x)
     (simp_all add: on_unlocked_def raised_def toBN_def Let_def act_def setTimeout_def echo_send_def transfer_def
        echo_settle_def dispatch_def list_update_append1
        split: option.splits sum.splits server_state.splits bignumberish.splits)

lemma run_trace_update:
  "i < length (trace s) \<Longrightarrow>
   run e (s\<lparr>trace := (trace s)[i := v]\<rparr>) ins =
     (run e s ins)\<lparr>trace := (trace (run e s ins))[i := v]\<rparr>"
proof (induction ins arbitrary: s)
  case Nil
  show ?case by (simp add: run_Nil)
next
  case (Cons x xs)
  from step_static[of e s x] Cons.prems have "i < length (trace (step e s x))" by auto
  from Cons.IH[OF this] show ?case
    by (simp add: run_Cons step_trace_update[OF Cons.prems])
qed

text \<open>
  C8, as amended. After the state channel has been created, the free balance of the
  zero asset is asked for exactly once, as the eighth action, right after the creation
  and before anything is registered. When the query is rejected, or its answer has no
  entry for the client's free-balance address (formatting the balance then raises), the
  process has failed and its trace ends with the query: no handler is registered and no
  server is started. When the answer has an entry for that address, startup goes on to
  register the handler and start the server, and the balance is only logged: with any
  other such answer, every run is the same but for the ninth entry of the trace, the
  log line of the balance.
\<close>

theorem free_balance_query:
  assumes "parse (builder \<lparr>options = [], demanded = []\<rparr>) args = Inr a"
    and "connect e (database_options a) = Inr db"
    and "createStateChannel e (channel_options a db) = Inr client"
  shows "filter is_balance_query (actions (run e (main e args) ins)) = [GetFreeBalance AddressZero]
       \<and> take 8 (actions (run e (main e args) ins)) =
           [Log Info ''Starting up'', Log Info ''Connect to database'',
            DbConnect (database_options a), Log Info ''Connected to database'',
            Log Info ''Create state channel'', CreateStateChannel (channel_options a db),
            Log Info ''Created state channel'', GetFreeBalance AddressZero]
       \<and> (\<forall>err. getFreeBalance e client AddressZero = Inl err \<or>
              (\<exists>fb. getFreeBalance e client AddressZero = Inr fb \<and>
                 fb (freeBalanceAddress client) = None \<and> err = formatEther_undefined e) \<longrightarrow>
            failed (run e (main e args) ins) = Some err \<and>
            length (actions (run e (main e args) ins)) = 8)
       \<and> (\<forall>fb b. getFreeBalance e client AddressZero = Inr fb \<and>
              fb (freeBalanceAddress client) = Some b \<longrightarrow>
            drop 8 (actions (main e args)) =
              [Log Info (''Channel free balance: '' @ formatEther e b),
               Log Info (''Signer address: '' @ freeBalanceAddress client),
               Log Info (''Free balance address: '' @ freeBalanceAddress client),
               Log Info (''xpub: '' @ publicIdentifier client),
               On CONDITIONAL_TRANSFER_UNLOCKED_EVENT,
               Log Info ''Waiting to receive payments...'',
               ServerLog Info (''Start at port '' @ String e (port a)),
               Use_morgan, Route ''GET'' ''/'', Listen (port a)] \<and>
            (\<forall>g fb' b'. g client AddressZero = Inr fb' \<and>
                 fb' (freeBalanceAddress client) = Some b' \<longrightarrow>
               run (e\<lparr>getFreeBalance := g\<rparr>) (main (e\<lparr>getFreeBalance := g\<rparr>) args) ins =
                 (run e (main e args) ins)
                   \<lparr>trace := (trace (run e (main e args) ins))
                      [8 := (0, Startup, Log Info (''Channel free balance: '' @ formatEther e b'))]\<rparr>))"
proof -
  let ?first = "[Log Info ''Starting up'', Log Info ''Connect to database'',
            DbConnect (database_options a), Log Info ''Connected to database'',
            Log Info ''Create state channel'', CreateStateChannel (channel_options a db),
            Log Info ''Created state channel'', GetFreeBalance AddressZero]"
  from assms(1) have m: "main e' args = handler e' a boot" for e' by (simp add: main_def)
  obtain tr where tr: "trace (run e (main e args) ins) = trace (main e args) @ tr"
    using run_static[of e "main e args" ins] by blast
  have pre: "take 8 (actions (main e args)) = ?first \<and>
             filter is_balance_query (actions (main e args)) = [GetFreeBalance AddressZero]"
  proof (cases "getFreeBalance e client AddressZero")
    case (Inl err)
    then have "getFreeBalance e client AddressZero = Inl err \<or>
              (\<exists>fb. getFreeBalance e client AddressZero = Inr fb \<and>
                 fb (freeBalanceAddress client) = None \<and> err = formatEther_undefined e)"
      by simp
    note h = handler_balance_fails[OF assms(2,3) this]
    show ?thesis unfolding actions_def m h by (simp add: boot_def)
  next
    case (Inr fb)
    show ?thesis
    proof (cases "fb (freeBalanceAddress client)")
      case None
      with Inr have "getFreeBalance e client AddressZero = Inl (formatEther_undefined e) \<or>
              (\<exists>fb. getFreeBalance e client AddressZero = Inr fb \<and>
                 fb (freeBalanceAddress client) = None \<and>
                 formatEther_undefined e = formatEther_undefined e)"
        by simp
      note h = handler_balance_fails[OF assms(2,3) this]
      show ?thesis unfolding actions_def m h by (simp add: boot_def)
    next
      case (Some b)
      note h = handler_succeeds[OF assms(2,3) Inr Some]
      show ?thesis unfolding actions_def m h by (simp add: boot_def)
    qed
  qed
  then have "length (take 8 (actions (main e args))) = 8" by simp
  then have len: "8 \<le> length (actions (main e args))" by simp
  have A: "filter is_balance_query (actions (run e (main e args) ins)) = [GetFreeBalance AddressZero]"
    using pre by (simp add: run_queries)
  from len have B: "take 8 (actions (run e (main e args) ins)) = ?first"
    using pre by (simp add: actions_def tr)
  have C: "failed (run e (main e args) ins) = Some err \<and>
            length (actions (run e (main e args) ins)) = 8"
    if "getFreeBalance e client AddressZero = Inl err \<or>
              (\<exists>fb. getFreeBalance e client AddressZero = Inr fb \<and>
                 fb (freeBalanceAddress client) = None \<and> err = formatEther_undefined e)" for err
  proof -
    note h = handler_balance_fails[OF assms(2,3) that]
    have "idle (main e args)" unfolding m h by (simp add: idle_def boot_def)
    from idle_run[OF this, of e ins] show ?thesis
      unfolding actions_def m h by (simp add: boot_def)
  qed
  have D: "drop 8 (actions (main e args)) =
              [Log Info (''Channel free balance: '' @ formatEther e b),
               Log Info (''Signer address: '' @ freeBalanceAddress client),
               Log Info (''Free balance address: '' @ freeBalanceAddress client),
               Log Info (''xpub: '' @ publicIdentifier client),
               On CONDITIONAL_TRANSFER_UNLOCKED_EVENT,
               Log Info ''Waiting to receive payments...'',
               ServerLog Info (''Start at port '' @ String e (port a)),
               Use_morgan, Route ''GET'' ''/'', Listen (port a)] \<and>
            (\<forall>g fb' b'. g client AddressZero = Inr fb' \<and>
                 fb' (freeBalanceAddress client) = Some b' \<longrightarrow>
               run (e\<lparr>getFreeBalance := g\<rparr>) (main (e\<lparr>getFreeBalance := g\<rparr>) args) ins =
                 (run e (main e args) ins)
                   \<lparr>trace := (trace (run e (main e args) ins))
                      [8 := (0, Startup, Log Info (''Channel free balance: '' @ formatEther e b'))]\<rparr>)"
    if ok: "getFreeBalance e client AddressZero = Inr fb" "fb (freeBalanceAddress client) = Some b"
    for fb b
  proof -
    note h = handler_succeeds[OF assms(2,3) ok]
    have d: "drop 8 (actions (main e args)) =
              [Log Info (''Channel free balance: '' @ formatEther e b),
               Log Info (''Signer address: '' @ freeBalanceAddress client),
               Log Info (''Free balance address: '' @ freeBalanceAddress client),
               Log Info (''xpub: '' @ publicIdentifier client),
               On CONDITIONAL_TRANSFER_UNLOCKED_EVENT,
               Log Info ''Waiting to receive payments...'',
               ServerLog Info (''Start at port '' @ String e (port a)),
               Use_morgan, Route ''GET'' ''/'', Listen (port a)]"
      unfolding actions_def m h by (simp add: boot_def)
    have "run (e\<lparr>getFreeBalance := g\<rparr>) (main (e\<lparr>getFreeBalance := g\<rparr>) args) ins =
                 (run e (main e args) ins)
                   \<lparr>trace := (trace (run e (main e args) ins))
                      [8 := (0, Startup, Log Info (''Channel free balance: '' @ formatEther e b'))]\<rparr>"
      if g: "g client AddressZero = Inr fb'" "fb' (freeBalanceAddress client) = Some b'"
      for g fb' b'
    proof -
      let ?e' = "e\<lparr>getFreeBalance := g\<rparr>"
      have "connect ?e' (database_options a) = Inr db"
        "createStateChannel ?e' (channel_options a db) = Inr client"
        "getFreeBalance ?e' client AddressZero = Inr fb'"
        using assms(2,3) g(1) by simp_all
      note h' = handler_succeeds[OF this g(2)]
      have l: "8 < length (trace (main e args))" unfolding m h by (simp add: boot_def)
      have "main ?e' args = (main e args)\<lparr>trace := (trace (main e args))
              [8 := (0, Startup, Log Info (''Channel free balance: '' @ formatEther e b'))]\<rparr>"
        unfolding m h h' by (simp add: boot_def)
      then show ?thesis
        by (simp add: run_env run_trace_update[OF l])
    qed
    with d show ?thesis by blast
  qed
  from A B C D show ?thesis by blast
qed

theorem free_balance_query_witness:
  "parse (builder \<lparr>options = [], demanded = []\<rparr>) demo_args = Inr demo_argv
   \<and> connect demo_env (database_options demo_argv) = Inr (Sequelize ''indexer'')
   \<and> createStateChannel demo_env (channel_options demo_argv (Sequelize ''indexer'')) = Inr demo_client
   \<and> filter is_balance_query (actions (run demo_env (main demo_env demo_args)
        [Deliver (event_of payment_a), Advance 1000, Fire 0, Bound, Http ''GET'' ''/''])) =
       [GetFreeBalance AddressZero]
   \<and> getFreeBalance balance_down_env demo_client AddressZero = Inl (Error ''timeout'')
   \<and> failed (run balance_down_env (main balance_down_env demo_args)
        [Deliver (event_of payment_a), Advance 1000, Fire 0, Bound, Http ''GET'' ''/'']) = Some (Error ''timeout'')
   \<and> length (actions (run balance_down_env (main balance_down_env demo_args)
        [Deliver (event_of payment_a), Advance 1000, Fire 0, Bound, Http ''GET'' ''/''])) = 8
   \<and> failed (run nokey_env (main nokey_env demo_args)
        [Deliver (event_of payment_a), Advance 1000, Fire 0, Bound, Http ''GET'' ''/'']) =
       Some (formatEther_undefined nokey_env)
   \<and> length (actions (run nokey_env (main nokey_env demo_args)
        [Deliver (event_of payment_a), Advance 1000, Fire 0, Bound, Http ''GET'' ''/''])) = 8
   \<and> getFreeBalance rich_env demo_client AddressZero = Inr [''0xF1'' \<mapsto> 1000000000000000000]
   \<and> run rich_env (main rich_env demo_args)
        [Deliver (event_of payment_a), Advance 1000, Fire 0, Bound, Http ''GET'' ''/''] =
       (run demo_env (main demo_env demo_args)
          [Deliver (event_of payment_a), Advance 1000, Fire 0, Bound, Http ''GET'' ''/''])
         \<lparr>trace := (trace (run demo_env (main demo_env demo_args)
                      [Deliver (event_of payment_a), Advance 1000, Fire 0, Bound, Http ''GET'' ''/'']))
            [8 := (0, Startup, Log Info ''Channel free balance: 1.0'')]\<rparr>"
proof -
  let ?ins = "[Deliver (event_of payment_a), Advance 1000, Fire 0, Bound, Http ''GET'' ''/'']"
  let ?g = "getFreeBalance rich_env"
  have c: "connect demo_env (database_options demo_argv) = Inr (Sequelize ''indexer'')"
    "createStateChannel demo_env (channel_options demo_argv (Sequelize ''indexer'')) = Inr demo_client"
    by (simp_all add: demo_env_def)
  have cb: "connect balance_down_env (database_options demo_argv) = Inr (Sequelize ''indexer'')"
    "createStateChannel balance_down_env (channel_options demo_argv (Sequelize ''indexer'')) = Inr demo_client"
    by (simp_all add: balance_down_env_def demo_env_def)
  have cn: "connect nokey_env (database_options demo_argv) = Inr (Sequelize ''indexer'')"
    "createStateChannel nokey_env (channel_options demo_argv (Sequelize ''indexer'')) = Inr demo_client"
    by (simp_all add: nokey_env_def demo_env_def)
  have gb: "getFreeBalance balance_down_env demo_client AddressZero = Inl (Error ''timeout'')"
    by (simp add: balance_down_env_def)
  have gn: "getFreeBalance nokey_env demo_client AddressZero = Inr Map.empty"
    by (simp add: nokey_env_def)
  have gd: "getFreeBalance demo_env demo_client AddressZero = Inr [''0xF1'' \<mapsto> 0]"
    "[''0xF1'' \<mapsto> (0::int)] (freeBalanceAddress demo_client) = Some 0"
    by (simp_all add: demo_env_def demo_client_def)
  have gg: "?g demo_client AddressZero = Inr [''0xF1'' \<mapsto> 1000000000000000000]"
    "[''0xF1'' \<mapsto> (1000000000000000000::int)] (freeBalanceAddress demo_client) =
       Some 1000000000000000000"
    by (simp_all add: demo_client_def rich_env_def)
  have req: "demo_env\<lparr>getFreeBalance := getFreeBalance rich_env\<rparr> = rich_env"
    by (simp add: rich_env_def)
  note T = free_balance_query[OF demo_parse c, of ?ins]
  note A = T[THEN conjunct1]
  note Tb = free_balance_query[OF demo_parse cb, of ?ins, THEN conjunct2, THEN conjunct2,
      THEN conjunct1, rule_format, of "Error ''timeout''"]
  have B: "failed (run balance_down_env (main balance_down_env demo_args) ?ins) = Some (Error ''timeout'')
      \<and> length (actions (run balance_down_env (main balance_down_env demo_args) ?ins)) = 8"
    by (rule Tb) (simp add: gb)
  note Tn = free_balance_query[OF demo_parse cn, of ?ins, THEN conjunct2, THEN conjunct2,
      THEN conjunct1, rule_format, of "formatEther_undefined nokey_env"]
  have C: "failed (run nokey_env (main nokey_env demo_args) ?ins) = Some (formatEther_undefined nokey_env)
      \<and> length (actions (run nokey_env (main nokey_env demo_args) ?ins)) = 8"
    by (rule Tn) (simp add: gn)
  note Td0 = T[THEN conjunct2, THEN conjunct2, THEN conjunct2, rule_format, OF conjI[OF gd],
      THEN conjunct2, rule_format]
  note Td = Td0[where g = "getFreeBalance rich_env", OF conjI[OF gg]]
  have fe: "formatEther demo_env 1000000000000000000 = ''1.0''" by (simp add: demo_env_def)
  have fe2: "''Channel free balance: '' @ ''1.0'' = ''Channel free balance: 1.0''" by simp
  from demo_parse c A gb B C gg(1) Td[unfolded fe fe2 req] show ?thesis by blast
qed

text \<open>
  C8 as stated fails: two environments that differ only in the answer of the balance
  query, which succeeds in both. With an entry for the client's address the process
  subscribes and starts its server; with none it fails, unsubscribed and without server.
\<close>

theorem free_balance_result_matters:
  "connect nokey_env = connect demo_env
   \<and> createStateChannel nokey_env = createStateChannel demo_env
   \<and> formatEther nokey_env = formatEther demo_env
   \<and> getFreeBalance demo_env demo_client AddressZero = Inr [''0xF1'' \<mapsto> 0]
   \<and> getFreeBalance nokey_env demo_client AddressZero = Inr Map.empty
   \<and> subscribed (main demo_env demo_args)
   \<and> server (main demo_env demo_args) =
       Starting \<lparr>morgan = True, routes = [(''GET'', ''/'')]\<rparr> (Some (Num 7600))
   \<and> \<not> subscribed (main nokey_env demo_args)
   \<and> server (main nokey_env demo_args) = NoServer
   \<and> failed (main nokey_env demo_args) = Some (formatEther_undefined nokey_env)
   \<and> actions (main nokey_env demo_args) =
       [Log Info ''Starting up'', Log Info ''Connect to database'',
        DbConnect (database_options demo_argv), Log Info ''Connected to database'',
        Log Info ''Create state channel'',
        CreateStateChannel (channel_options demo_argv (Sequelize ''indexer'')),
        Log Info ''Created state channel'', GetFreeBalance AddressZero]"
  by (simp add: nokey_env_def main_def parse_def missing_def given_def builder_def chained_def
        option_def demandOption_def handler_def database_options_def channel_options_def Let_def
        act_def reject_def boot_def demo_env_def demo_args_def demo_argv_def demo_client_def
        actions_def)

section \<open>The payment handler checks nothing\<close>

text \<open>
  C10, as amended. The handler checks nothing. For any event whose amount
  \<^verbatim>\<open>toBN\<close> converts, whatever the integer (zero, negative), and that has its
  \<^verbatim>\<open>meta\<close>, a subscribed process that receives the event logs it and sets the timer,
  and when the timer fires 1000 later it submits a transfer of exactly that amount to
  the sender of the event. For an event whose amount \<^verbatim>\<open>toBN\<close> refuses, or that has
  no \<^verbatim>\<open>meta\<close>, the handler raises: the exception is all that happens, nothing is
  logged or scheduled.
\<close>

theorem echo_no_validation:
  assumes "subscribed s"
  shows "(\<forall>n m. ev_amount data = Converts n \<and> ev_meta data = Some m \<longrightarrow>
            trace (run e s [Deliver data, Advance 1000, Fire (next_timer s)]) =
              trace s @
                [(now s, Echo (delivered s),
                    Emitted \<lparr>paymentId = ev_paymentId data, amount = n, meta = m\<rparr>),
                 (now s, Echo (delivered s),
                    Log Info (''Received payment '' @ ev_paymentId data @ '' ('' @ formatEther e n @
                      '' ETH) from '' @ sender m)),
                 (now s, Echo (delivered s), SetTimeout 1000),
                 (now s + 1000, Echo (delivered s), TimerFired),
                 (now s + 1000, Echo (delivered s),
                    Log Info (''Send '' @ formatEther e n @ '' ETH back to '' @ sender m)),
                 (now s + 1000, Echo (delivered s),
                    Transfer \<lparr>tx_amount = n, recipient = sender m, assetId = AddressZero\<rparr>)])
       \<and> (\<forall>err. ev_amount data = Refused err \<longrightarrow>
            step e s (Deliver data) = s\<lparr>trace := trace s @ [(now s, Emitter, Raised err)]\<rparr>)
       \<and> (\<forall>n. ev_amount data = Converts n \<and> ev_meta data = None \<longrightarrow>
            step e s (Deliver data) =
              s\<lparr>trace := trace s @ [(now s, Emitter, Raised (property_of_undefined e))]\<rparr>)"
proof -
  have A: "trace (run e s [Deliver data, Advance 1000, Fire (next_timer s)]) =
              trace s @
                [(now s, Echo (delivered s),
                    Emitted \<lparr>paymentId = ev_paymentId data, amount = n, meta = m\<rparr>),
                 (now s, Echo (delivered s),
                    Log Info (''Received payment '' @ ev_paymentId data @ '' ('' @ formatEther e n @
                      '' ETH) from '' @ sender m)),
                 (now s, Echo (delivered s), SetTimeout 1000),
                 (now s + 1000, Echo (delivered s), TimerFired),
                 (now s + 1000, Echo (delivered s),
                    Log Info (''Send '' @ formatEther e n @ '' ETH back to '' @ sender m)),
                 (now s + 1000, Echo (delivered s),
                    Transfer \<lparr>tx_amount = n, recipient = sender m, assetId = AddressZero\<rparr>)]"
    if "ev_amount data = Converts n" "ev_meta data = Some m" for n m
  proof -
    from that(1) have c: "toBN (ev_amount data) = Inr n" by (simp add: toBN_def)
    let ?d = "\<lparr>paymentId = ev_paymentId data, amount = n, meta = m\<rparr>"
    define s1 where "s1 = step e (on_unlocked e data s) (Advance 1000)"
    have tm: "timers s1 (next_timer s) =
        Some \<lparr>due = now s + 1000, callback = closure_of e (delivered s) ?d\<rparr>"
      and nw: "now s1 = now s + 1000"
      and tr: "trace s1 = trace s @ map (\<lambda>(t, a). (t, Echo (delivered s), a)) (received e ?d (now s))"
      unfolding s1_def by (simp_all add: on_unlocked_effect[OF c that(2)])
    have du: "now s + 1000 \<le> now s1" by (simp add: nw)
    have "run e s [Deliver data, Advance 1000, Fire (next_timer s)] =
        step e s1 (Fire (next_timer s))"
      using assms by (simp add: run_def s1_def)
    then show ?thesis
      unfolding fire_effect[OF tm du]
      by (simp add: tr nw received_def sent_def echo_of_def)
  qed
  have B: "step e s (Deliver data) = s\<lparr>trace := trace s @ [(now s, Emitter, Raised err)]\<rparr>"
    if "ev_amount data = Refused err" for err
  proof -
    from that have "toBN (ev_amount data) = Inl err" by (simp add: toBN_def)
    then have "on_unlocked e data s = s\<lparr>trace := trace s @ [(now s, Emitter, Raised err)]\<rparr>"
      by (intro on_unlocked_raises) simp
    with assms show ?thesis by simp
  qed
  have C: "step e s (Deliver data) =
      s\<lparr>trace := trace s @ [(now s, Emitter, Raised (property_of_undefined e))]\<rparr>"
    if "ev_amount data = Converts n" "ev_meta data = None" for n
  proof -
    from that(1) have "toBN (ev_amount data) = Inr n" by (simp add: toBN_def)
    with that(2) have "on_unlocked e data s =
        s\<lparr>trace := trace s @ [(now s, Emitter, Raised (property_of_undefined e))]\<rparr>"
      by (intro on_unlocked_raises) simp
    with assms show ?thesis by simp
  qed
  from A B C show ?thesis by blast
qed

theorem echo_no_validation_witness:
  "subscribed (main demo_env demo_args)
   \<and> ev_amount (event_of payment_c) = Converts (- 5)
   \<and> ev_meta (event_of payment_c) = Some \<lparr>sender = ''0xCCC''\<rparr>
   \<and> trace (run demo_env (main demo_env demo_args)
        [Deliver (event_of payment_c), Advance 1000, Fire 0]) =
       trace (main demo_env demo_args) @
         [(0, Echo 0, Emitted payment_c),
          (0, Echo 0,
             Log Info ''Received payment 0x03 (-0.000000000000000005 ETH) from 0xCCC''),
          (0, Echo 0, SetTimeout 1000),
          (1000, Echo 0, TimerFired),
          (1000, Echo 0, Log Info ''Send -0.000000000000000005 ETH back to 0xCCC''),
          (1000, Echo 0, Transfer \<lparr>tx_amount = - 5, recipient = ''0xCCC'', assetId = AddressZero\<rparr>)]
   \<and> ev_amount event_nan = Refused (Error ''invalid BigNumber string'')
   \<and> step demo_env (main demo_env demo_args) (Deliver event_nan) =
       (main demo_env demo_args)
         \<lparr>trace := trace (main demo_env demo_args) @
            [(0, Emitter, Raised (Error ''invalid BigNumber string''))]\<rparr>
   \<and> ev_amount event_nometa = Converts 7
   \<and> ev_meta event_nometa = None
   \<and> step demo_env (main demo_env demo_args) (Deliver event_nometa) =
       (main demo_env demo_args)
         \<lparr>trace := trace (main demo_env demo_args) @
            [(0, Emitter, Raised (Error ''Cannot read property of undefined''))]\<rparr>"
proof -
  let ?m = "main demo_env demo_args"
  have s: "subscribed ?m" and f: "next_timer ?m = 0" "delivered ?m = 0" "now ?m = 0"
    by (simp_all add: eval_defs)
  have c: "ev_amount (event_of payment_c) = Converts (- 5)"
      "ev_meta (event_of payment_c) = Some \<lparr>sender = ''0xCCC''\<rparr>"
    and cid: "ev_paymentId (event_of payment_c) = ''0x03''"
    and pc: "\<lparr>paymentId = ''0x03'', amount = - 5, meta = \<lparr>sender = ''0xCCC''\<rparr>\<rparr> = payment_c"
    by (simp_all add: event_of_def payment_c_def)
  have n: "ev_amount event_nan = Refused (Error ''invalid BigNumber string'')"
    by (simp add: event_nan_def)
  have u: "ev_amount event_nometa = Converts 7" "ev_meta event_nometa = None"
    by (simp_all add: event_nometa_def)
  have ev: "formatEther demo_env (- 5) = ''-0.000000000000000005''"
    "property_of_undefined demo_env = Error ''Cannot read property of undefined''"
    "sender \<lparr>sender = ''0xCCC''\<rparr> = ''0xCCC''"
    by (simp_all add: demo_env_def)
  note A = echo_no_validation[OF s, of "event_of payment_c" demo_env, THEN conjunct1,
      rule_format, OF conjI[OF c]]
  note B = echo_no_validation[OF s, of event_nan demo_env, THEN conjunct2, THEN conjunct1,
      rule_format, OF n]
  note C = echo_no_validation[OF s, of event_nometa demo_env, THEN conjunct2, THEN conjunct2,
      rule_format, OF conjI[OF u]]
  have A': "trace (run demo_env ?m [Deliver (event_of payment_c), Advance 1000, Fire 0]) =
       trace ?m @
         [(0, Echo 0, Emitted payment_c),
          (0, Echo 0,
             Log Info ''Received payment 0x03 (-0.000000000000000005 ETH) from 0xCCC''),
          (0, Echo 0, SetTimeout 1000),
          (1000, Echo 0, TimerFired),
          (1000, Echo 0, Log Info ''Send -0.000000000000000005 ETH back to 0xCCC''),
          (1000, Echo 0, Transfer \<lparr>tx_amount = - 5, recipient = ''0xCCC'', assetId = AddressZero\<rparr>)]"
    using A unfolding f cid ev pc by simp
  from s c A' n B[unfolded f] u C[unfolded f ev] show ?thesis by blast
qed

text \<open>
  C10 as stated fails: it names every delivered event, also those outside the
  specification's model of an amount. A subscribed process that receives an event whose
  amount is no number, or one without \<^verbatim>\<open>meta\<close>, raises and schedules nothing: after
  the delay there is no timer to fire and no transfer.
\<close>

theorem echo_validation_by_exception:
  "subscribed (main demo_env demo_args)
   \<and> trace (run demo_env (main demo_env demo_args) [Deliver event_nan, Advance 1000, Fire 0]) =
       trace (main demo_env demo_args) @
         [(0, Emitter, Raised (Error ''invalid BigNumber string''))]
   \<and> timers (run demo_env (main demo_env demo_args) [Deliver event_nan, Advance 1000]) 0 = None
   \<and> transfers 0 (run demo_env (main demo_env demo_args)
        [Deliver event_nan, Advance 1000, Fire 0]) = []
   \<and> trace (run demo_env (main demo_env demo_args) [Deliver event_nometa, Advance 1000, Fire 0]) =
       trace (main demo_env demo_args) @
         [(0, Emitter, Raised (Error ''Cannot read property of undefined''))]
   \<and> timers (run demo_env (main demo_env demo_args) [Deliver event_nometa, Advance 1000]) 0 = None
   \<and> transfers 0 (run demo_env (main demo_env demo_args)
        [Deliver event_nometa, Advance 1000, Fire 0]) = []"
  by (simp add: eval_defs event_nan_def event_nometa_def)

end
